theory Spec2Isabelle
  imports Complex_Main
begin

section \<open>Data model of the shard manager\<close>

text \<open>
  The items of the UPSF store as \<^verbatim>\<open>app.py\<close> reads them. Only the attributes that
  \<^verbatim>\<open>ShardManager.map_shards\<close> and \<^verbatim>\<open>ShardManager.create_default_items\<close> touch are kept.
  Python strings are modelled as \<^typ>\<open>string\<close>; a character with code 128 or more stands
  for a non-ASCII code point.
\<close>

record endpoint =
  endpoint_name :: string

record service_gateway =
  sg_name :: string

record service_gateway_user_plane =
  sgup_name :: string
  service_gateway_name :: string
  max_session_count :: int
  supported_service_group :: "string list"
  sgup_default_endpoint :: endpoint
  allocated_session_count :: int

record traffic_steering_function =
  tsf_name :: string
  tsf_default_endpoint :: endpoint

record ss_ptp_spec =
  ss_ptp_tsf_endpoint :: endpoint
  ss_ptp_sgup_endpoint :: "endpoint list"

record ss_mptp_spec =
  ss_mptp_tsf_endpoint :: "endpoint list"
  ss_mptp_sgup_endpoint :: "endpoint list"

record ms_ptp_spec =
  ms_ptp_tsf_endpoint :: endpoint
  ms_ptp_sgup_endpoint :: endpoint

record ms_mptp_spec =
  ms_mptp_tsf_endpoint :: "endpoint list"
  ms_mptp_sgup_endpoint :: endpoint

text \<open>
  A network connection carries the tag that \<^verbatim>\<open>spec.WhichOneof("nc_spec")\<close> returns
  (\<open>None\<close> when no variant is set) and the four sub-messages; reading a sub-message
  that is not the set one yields its empty default, so all four are fields.
\<close>

record network_connection =
  nc_name :: string
  nc_spec_type :: "string option"
  ss_ptp :: ss_ptp_spec
  ss_mptp :: ss_mptp_spec
  ms_ptp :: ms_ptp_spec
  ms_mptp :: ms_mptp_spec

record shard =
  shard_name :: string
  prefix :: "string list"
  desired_service_gateway_user_plane :: string
  desired_network_connection :: "string list"
  current_tsf_network_connection :: "(string \<times> string) list"
  service_groups_supported :: "string list"

text \<open>The snapshot that one sweep reads with the five \<^verbatim>\<open>list_*\<close> calls.\<close>

record store =
  service_gateways :: "service_gateway list"
  service_gateway_user_planes :: "service_gateway_user_plane list"
  shards :: "shard list"
  traffic_steering_functions :: "traffic_steering_function list"
  network_connections :: "network_connection list"

text \<open>
  An entry of \<^verbatim>\<open>upsf.shards\<close> in the policy file. A key that is absent is \<open>None\<close>;
  \<^verbatim>\<open>serviceGatewayUserPlane\<close> may be present with a null value (\<open>Some None\<close>).
\<close>

record policy_entry =
  entry_name :: "string option"
  entry_prefixes :: "string list option"
  entry_exclude :: "string list option"
  entry_serviceGatewayUserPlane :: "string option option"

datatype config_file =
    File_absent
  | Document_empty
  | Document "policy_entry list"

text \<open>The keyword arguments of one \<^verbatim>\<open>update_shard\<close> call; an absent key is \<open>None\<close>.\<close>

record update_params =
  u_name :: string
  u_desired_service_gateway_user_plane :: "string option"
  u_desired_network_connection :: "string list option"
  u_current_tsf_network_connection :: "(string \<times> string) list option"
  u_service_groups_supported :: "string list option"
  u_prefix :: "string list"
  u_list_merge_strategy :: string

datatype py_error = UnicodeEncodeError | UpsfError | AttributeError

datatype warning =
    No_user_planes
  | Static_sgup_unavailable string string
  | No_candidates string

text \<open>
  What a sweep does to the outside: the warnings it logs and the \<^verbatim>\<open>update_shard\<close>
  calls it issues, in program order. Info and debug lines are not recorded.
\<close>

datatype event = Warning warning | Update_shard update_params

text \<open>
  How a sweep ends: \<open>Finished\<close> when the loop ran through every shard, \<open>Returned\<close> on a
  \<^verbatim>\<open>return\<close> statement before that, \<open>Raised\<close> when an exception leaves the per-shard
  \<^verbatim>\<open>try\<close> block, which catches only \<^verbatim>\<open>KeyError\<close> and \<^verbatim>\<open>RuntimeError\<close>: the sweep
  processes no further shard (an \<^verbatim>\<open>UpsfError\<close> is logged by the outer handler, any other
  exception reaches the caller).
\<close>

datatype sweep_end = Finished | Returned | Raised py_error

text \<open>
  Three operations of the Python runtime are parameters of the model, so that every
  theorem holds for whatever they compute: the SHA-256 hex digest, the iteration order of
  a \<^verbatim>\<open>set\<close> that was filled by the given sequence of \<^verbatim>\<open>add\<close> calls, and the true
  division \<^verbatim>\<open>/\<close> of two integers (a float in Python, any linear order here).
\<close>

record ('h, 'l) runtime =
  sha256_hexdigest :: "string \<Rightarrow> 'h"
  set_iter :: "string list \<Rightarrow> string list"
  truediv :: "int \<Rightarrow> int \<Rightarrow> 'l"

section \<open>The shard mapper: \<^verbatim>\<open>map_shards\<close>\<close>

text \<open>
  One sweep is modelled on one snapshot: the store does not change while the sweep runs,
  and its calls answer (a transport failure is not modelled). The result is the list of
  events and the way the sweep ends. The warnings that the policy lookup itself logs for
  entries without a name or a pin are not recorded.
\<close>

subsection \<open>Strings, dictionaries, fingerprints\<close>

text \<open>
  \<^verbatim>\<open>s.encode("ascii")\<close> raises \<^verbatim>\<open>UnicodeEncodeError\<close> (\<open>None\<close> here) on a character that is
  not ASCII; \<^verbatim>\<open>sep.join(xs)\<close>; the fingerprint string and its digest.
\<close>

definition encode_ascii :: "string \<Rightarrow> string option" where
  "encode_ascii s = (if list_all (\<lambda>c. of_char c < (128::nat)) s then Some s else None)"

fun join :: "string \<Rightarrow> string list \<Rightarrow> string" where
  "join sep [] = []"
| "join sep [x] = x"
| "join sep (x # y # ys) = x @ sep @ join sep (y # ys)"

definition finger :: "string \<Rightarrow> string list \<Rightarrow> string" where
  "finger up ncs = up @ ''/'' @ join '','' ncs"

definition fingerprint :: "('h, 'l) runtime \<Rightarrow> string \<Rightarrow> string list \<Rightarrow> py_error + 'h" where
  "fingerprint rt up ncs =
     (case encode_ascii (finger up ncs) of
        None \<Rightarrow> Inl UnicodeEncodeError
      | Some b \<Rightarrow> Inr (sha256_hexdigest rt b))"

text \<open>Assignment \<^verbatim>\<open>d[k] = v\<close> on a Python dictionary, which keeps the position of a key.\<close>

fun dict_set :: "'k \<Rightarrow> 'v \<Rightarrow> ('k \<times> 'v) list \<Rightarrow> ('k \<times> 'v) list" where
  "dict_set k v [] = [(k, v)]"
| "dict_set k v ((k', v') # d) =
     (if k' = k then (k, v) # d else (k', v') # dict_set k v d)"

subsection \<open>Static pinning: \<^verbatim>\<open>get_static_shard_to_sgup_mapping\<close>\<close>

fun static_scan :: "policy_entry list \<Rightarrow> string \<Rightarrow> string option" where
  "static_scan [] n = None"
| "static_scan (e # es) n =
     (case entry_name e of
        None \<Rightarrow> static_scan es n
      | Some nm \<Rightarrow>
          (case entry_serviceGatewayUserPlane e of
             None \<Rightarrow> static_scan es n
           | Some v \<Rightarrow> if nm \<noteq> n then static_scan es n else v))"

definition get_static_shard_to_sgup_mapping :: "config_file \<Rightarrow> string \<Rightarrow> string option" where
  "get_static_shard_to_sgup_mapping cfg n =
     (case cfg of
        File_absent \<Rightarrow> None
      | Document_empty \<Rightarrow> None
      | Document es \<Rightarrow> static_scan es n)"

subsection \<open>Least-loaded selection\<close>

definition eligible :: "string list \<Rightarrow> service_gateway_user_plane list \<Rightarrow> service_gateway_user_plane list" where
  "eligible sg_names sgups =
     filter (\<lambda>u. max_session_count u > 0 \<and> service_gateway_name u \<in> set sg_names) sgups"

definition load :: "('h, 'l) runtime \<Rightarrow> service_gateway_user_plane \<Rightarrow> 'l" where
  "load rt u = truediv rt (allocated_session_count u) (max_session_count u)"

definition sgup_load ::
  "('h, 'l) runtime \<Rightarrow> string list \<Rightarrow> service_gateway_user_plane list \<Rightarrow> (string \<times> 'l) list" where
  "sgup_load rt sg_names sgups =
     fold (\<lambda>u d. dict_set (sgup_name u) (load rt u) d) (eligible sg_names sgups) []"

text \<open>\<^verbatim>\<open>min(d, key=d.get)\<close>: the first key, in dictionary order, whose value is least.\<close>

fun min_from :: "('k \<times> 'l::linorder) \<Rightarrow> ('k \<times> 'l) list \<Rightarrow> ('k \<times> 'l)" where
  "min_from b [] = b"
| "min_from b (x # xs) = min_from (if snd x < snd b then x else b) xs"

text \<open>
  Step (b) of the per-shard body. \<open>Inl\<close> leaves the body early, with the events so far and,
  when the whole sweep ends there, how; \<open>Inr\<close> is the chosen \<^verbatim>\<open>up_name\<close>.
\<close>

definition pick_sgup ::
  "('h, 'l::linorder) runtime \<Rightarrow> config_file \<Rightarrow> string list \<Rightarrow> service_gateway_user_plane list \<Rightarrow>
     shard \<Rightarrow> (event list \<times> sweep_end option) + string" where
  "pick_sgup rt cfg sg_names sgups h =
     (let up_names = map sgup_name sgups;
          up_name = desired_service_gateway_user_plane h;
          static_up_name = get_static_shard_to_sgup_mapping cfg (shard_name h)
      in if (case static_up_name of None \<Rightarrow> False | Some s \<Rightarrow> up_name \<noteq> s)
            \<or> up_name \<notin> set up_names
         then (case static_up_name of
                 Some s \<Rightarrow>
                   if s \<notin> set up_names
                   then Inl ([Warning (Static_sgup_unavailable (shard_name h) s)], Some Returned)
                   else Inr s
               | None \<Rightarrow>
                   (case sgup_load rt sg_names sgups of
                      [] \<Rightarrow> Inl ([Warning (No_candidates (shard_name h))], None)
                    | x # xs \<Rightarrow> Inr (fst (min_from x xs))))
         else Inr up_name)"

subsection \<open>Network-connection matching\<close>

text \<open>
  For one TSF and one network connection: the (TSF name, NC name) pair, once for each
  execution of the ``matching network connection'' body. The tags are the source's. The
  name that the client's \<^verbatim>\<open>Endpoint(ep).name\<close> projects is the endpoint's name, the only
  part of an endpoint that matters for matching.
\<close>

definition nc_hits ::
  "string \<Rightarrow> traffic_steering_function \<Rightarrow> network_connection \<Rightarrow> (string \<times> string) list" where
  "nc_hits up_ep_name t nc =
     (let tsf_ep_name = endpoint_name (tsf_default_endpoint t);
          nc_type = nc_spec_type nc;
          hit = (tsf_name t, nc_name nc)
      in if nc_type \<in> {Some ''SsPtpSpec'', Some ''ss_ptp''} then
           [hit. up_ep \<leftarrow> ss_ptp_sgup_endpoint (ss_ptp nc),
                 up_ep_name = endpoint_name up_ep
                 \<and> tsf_ep_name = endpoint_name (ss_ptp_tsf_endpoint (ss_ptp nc))]
         else if nc_type \<in> {Some ''SsMptpSpec'', Some ''ss_mptpc''} then
           [hit. up_ep \<leftarrow> ss_mptp_sgup_endpoint (ss_mptp nc),
                 tsf_ep \<leftarrow> ss_mptp_tsf_endpoint (ss_mptp nc),
                 up_ep_name = endpoint_name up_ep \<and> tsf_ep_name = endpoint_name tsf_ep]
         else if nc_type \<in> {Some ''MsPtpSpec'', Some ''ms_ptp''} then
           (if up_ep_name = endpoint_name (ms_ptp_sgup_endpoint (ms_ptp nc))
               \<and> tsf_ep_name = endpoint_name (ms_ptp_tsf_endpoint (ms_ptp nc))
            then [hit] else [])
         else if nc_type \<in> {Some ''MsMptpSpec'', Some ''ms_mptp''} then
           [hit. tsf_ep \<leftarrow> ms_mptp_tsf_endpoint (ms_mptp nc),
                 up_ep_name = endpoint_name (ms_mptp_sgup_endpoint (ms_mptp nc))
                 \<and> tsf_ep_name = endpoint_name tsf_ep]
         else [])"

definition match_network_connections ::
  "string \<Rightarrow> traffic_steering_function list \<Rightarrow> network_connection list \<Rightarrow> (string \<times> string) list" where
  "match_network_connections up_ep_name tsfs ncs =
     concat (map (\<lambda>t. concat (map (nc_hits up_ep_name t) ncs)) tsfs)"

text \<open>
  The two containers the matching fills: the set \<^verbatim>\<open>desired_network_connection\<close>, read
  back in its iteration order, and the dictionary \<^verbatim>\<open>tsf_network_connection\<close>.
\<close>

definition desired_ncs ::
  "('h, 'l) runtime \<Rightarrow> traffic_steering_function list \<Rightarrow> network_connection list \<Rightarrow>
     service_gateway_user_plane \<Rightarrow> string list" where
  "desired_ncs rt tsfs ncs u =
     set_iter rt (map snd
       (match_network_connections (endpoint_name (sgup_default_endpoint u)) tsfs ncs))"

definition tsf_ncs ::
  "traffic_steering_function list \<Rightarrow> network_connection list \<Rightarrow>
     service_gateway_user_plane \<Rightarrow> (string \<times> string) list" where
  "tsf_ncs tsfs ncs u =
     fold (\<lambda>(t, n) d. dict_set t n d)
       (match_network_connections (endpoint_name (sgup_default_endpoint u)) tsfs ncs) []"

subsection \<open>The per-shard body and the sweep\<close>

text \<open>
  \<^verbatim>\<open>get_service_gateway_user_plane(name=...)\<close> on the frozen snapshot. A name that the
  store does not know is modelled as the client's \<^verbatim>\<open>UpsfError\<close>.
\<close>

definition get_service_gateway_user_plane ::
  "service_gateway_user_plane list \<Rightarrow> string \<Rightarrow> service_gateway_user_plane option" where
  "get_service_gateway_user_plane sgups n = find (\<lambda>u. sgup_name u = n) sgups"

definition update_of ::
  "shard \<Rightarrow> service_gateway_user_plane \<Rightarrow> string list \<Rightarrow> (string \<times> string) list \<Rightarrow> update_params" where
  "update_of h u dnc tnc =
     \<lparr> u_name = shard_name h,
       u_desired_service_gateway_user_plane = Some (sgup_name u),
       u_desired_network_connection = Some dnc,
       u_current_tsf_network_connection = Some tnc,
       u_service_groups_supported = Some (filter (\<lambda>g. g \<noteq> '''') (supported_service_group u)),
       u_prefix = prefix h,
       u_list_merge_strategy = ''replace'' \<rparr>"

definition map_shard ::
  "('h, 'l::linorder) runtime \<Rightarrow> config_file \<Rightarrow> string list \<Rightarrow> service_gateway_user_plane list \<Rightarrow>
     traffic_steering_function list \<Rightarrow> network_connection list \<Rightarrow> shard \<Rightarrow>
     event list \<times> sweep_end option" where
  "map_shard rt cfg sg_names sgups tsfs ncs h =
     (case fingerprint rt (desired_service_gateway_user_plane h) (desired_network_connection h) of
        Inl e \<Rightarrow> ([], Some (Raised e))
      | Inr fp_active \<Rightarrow>
          (case pick_sgup rt cfg sg_names sgups h of
             Inl r \<Rightarrow> r
           | Inr up_name \<Rightarrow>
               (case get_service_gateway_user_plane sgups up_name of
                  None \<Rightarrow> ([], Some (Raised UpsfError))
                | Some u \<Rightarrow>
                    (case fingerprint rt (sgup_name u) (desired_ncs rt tsfs ncs u) of
                       Inl e \<Rightarrow> ([], Some (Raised e))
                     | Inr fp_desired \<Rightarrow>
                         if fp_desired \<noteq> fp_active
                         then ([Update_shard
                                  (update_of h u (desired_ncs rt tsfs ncs u) (tsf_ncs tsfs ncs u))],
                               None)
                         else ([], None)))))"

fun map_shards_loop ::
  "('h, 'l::linorder) runtime \<Rightarrow> config_file \<Rightarrow> string list \<Rightarrow> service_gateway_user_plane list \<Rightarrow>
     traffic_steering_function list \<Rightarrow> network_connection list \<Rightarrow> shard list \<Rightarrow>
     event list \<times> sweep_end" where
  "map_shards_loop rt cfg sg_names sgups tsfs ncs [] = ([], Finished)"
| "map_shards_loop rt cfg sg_names sgups tsfs ncs (h # hs) =
     (case map_shard rt cfg sg_names sgups tsfs ncs h of
        (evs, Some e) \<Rightarrow> (evs, e)
      | (evs, None) \<Rightarrow>
          (case map_shards_loop rt cfg sg_names sgups tsfs ncs hs of
             (evs', e) \<Rightarrow> (evs @ evs', e)))"

definition reset_of :: "shard \<Rightarrow> update_params" where
  "reset_of h =
     \<lparr> u_name = shard_name h,
       u_desired_service_gateway_user_plane = None,
       u_desired_network_connection = None,
       u_current_tsf_network_connection = None,
       u_service_groups_supported = None,
       u_prefix = prefix h,
       u_list_merge_strategy = ''replace'' \<rparr>"

definition map_shards ::
  "('h, 'l::linorder) runtime \<Rightarrow> config_file \<Rightarrow> store \<Rightarrow> event list \<times> sweep_end" where
  "map_shards rt cfg S =
     (if service_gateway_user_planes S = [] then
        (Warning No_user_planes #
           map (\<lambda>h. Update_shard (reset_of h))
             (filter (\<lambda>h. desired_service_gateway_user_plane h \<noteq> '''') (shards S)),
         Returned)
      else
        map_shards_loop rt cfg
          (map sg_name (service_gateways S))
          (service_gateway_user_planes S)
          (traffic_steering_functions S)
          (network_connections S)
          (shards S))"

text \<open>
  An event without the two fields of an update that are outside the fingerprint,
  \<^verbatim>\<open>current_tsf_network_connection\<close> and \<^verbatim>\<open>service_groups_supported\<close>.
\<close>

definition decision :: "event \<Rightarrow> event" where
  "decision e =
     (case e of
        Warning w \<Rightarrow> Warning w
      | Update_shard p \<Rightarrow>
          Update_shard (p \<lparr> u_current_tsf_network_connection := None,
                            u_service_groups_supported := None \<rparr>))"

definition writes :: "event list \<Rightarrow> update_params list" where
  "writes evs = concat (map (\<lambda>e. case e of Update_shard p \<Rightarrow> [p] | Warning w \<Rightarrow> []) evs)"


subsection \<open>The store after a sweep\<close>

text \<open>
  Modelled from the spec: the effect of \<^verbatim>\<open>updateShard\<close> on the stored shard, which is
  code of the UPSF client and store. It is a partial update: a scalar that the call does
  not carry stays as stored. Every update of the shard manager carries
  \<^verbatim>\<open>list_merge_strategy = "replace"\<close>, under which the list-valued fields are overwritten by
  the lists of the call, a list that the call does not carry counting as empty (so the
  reset update of the empty-plane branch clears the network connections).
\<close>

definition update_shard_store :: "update_params \<Rightarrow> shard \<Rightarrow> shard" where
  "update_shard_store p h =
     h \<lparr> prefix := u_prefix p,
         desired_service_gateway_user_plane :=
           (case u_desired_service_gateway_user_plane p of
              None \<Rightarrow> desired_service_gateway_user_plane h
            | Some u \<Rightarrow> u),
         desired_network_connection :=
           (case u_desired_network_connection p of None \<Rightarrow> [] | Some l \<Rightarrow> l),
         current_tsf_network_connection :=
           (case u_current_tsf_network_connection p of None \<Rightarrow> [] | Some d \<Rightarrow> d),
         service_groups_supported :=
           (case u_service_groups_supported p of None \<Rightarrow> [] | Some l \<Rightarrow> l) \<rparr>"

definition update_shard :: "update_params \<Rightarrow> shard list \<Rightarrow> shard list" where
  "update_shard p hs =
     map (\<lambda>h. if shard_name h = u_name p then update_shard_store p h else h) hs"

definition apply_writes :: "update_params list \<Rightarrow> shard list \<Rightarrow> shard list" where
  "apply_writes ps hs = fold update_shard ps hs"

text \<open>One stored shard after a sequence of updates, each applied if it names the shard.\<close>

definition shard_after :: "update_params list \<Rightarrow> shard \<Rightarrow> shard" where
  "shard_after ps h =
     fold (\<lambda>p h. if shard_name h = u_name p then update_shard_store p h else h) ps h"

text \<open>\<^verbatim>\<open>get_shard(name=...)\<close> on a list of stored shards.\<close>

definition get_shard :: "shard list \<Rightarrow> string \<Rightarrow> shard option" where
  "get_shard hs n = find (\<lambda>h. shard_name h = n) hs"

text \<open>The store as the next sweep finds it when nothing but the sweep wrote to it.\<close>

definition store_after :: "('h, 'l::linorder) runtime \<Rightarrow> config_file \<Rightarrow> store \<Rightarrow> store" where
  "store_after rt cfg S =
     S \<lparr> shards := apply_writes (writes (fst (map_shards rt cfg S))) (shards S) \<rparr>"

section \<open>The default-item materializer: \<^verbatim>\<open>create_default_items\<close>\<close>

text \<open>
  The two functions of Python's \<^verbatim>\<open>ipaddress\<close> module that the capacity computation
  calls are parameters: \<open>ip_address\<close> parses a host (\<open>None\<close> for \<^verbatim>\<open>ValueError\<close>),
  \<open>ip_network_hosts\<close> is \<^verbatim>\<open>ip_network(prefix).hosts()\<close> as a list (\<open>None\<close> for
  \<^verbatim>\<open>ValueError\<close>).
\<close>

record 'a ipaddress =
  ip_address :: "string \<Rightarrow> 'a option"
  ip_network_hosts :: "string \<Rightarrow> 'a list option"

record create_params =
  c_name :: string
  c_virtual_mac :: string
  c_allocated_session_count :: int
  c_max_session_count :: int
  c_prefix :: "string list"
  c_desired_service_gateway_user_plane :: "string option"

datatype c3_warning =
    No_sgups
  | Parameter_not_found string policy_entry
  | Invalid_prefix string policy_entry
  | Desired_sgup_unavailable string string

text \<open>
  A \<^verbatim>\<open>create_shard\<close> call is recorded with the policy entry it was made for, as the
  ``add entry'' log line before it does.
\<close>

datatype c3_event = C3_warning c3_warning | Create_shard policy_entry create_params

text \<open>
  The body of the \<^verbatim>\<open>try\<close> block for one prefix: the number of hosts left, or \<open>None\<close>
  when \<^verbatim>\<open>ip_address\<close> or \<^verbatim>\<open>ip_network\<close> raised \<^verbatim>\<open>ValueError\<close>.
\<close>

definition prefix_hosts :: "'a ipaddress \<Rightarrow> string list \<Rightarrow> string \<Rightarrow> nat option" where
  "prefix_hosts ip exclude p =
     (case those (map (ip_address ip) exclude) of
        None \<Rightarrow> None
      | Some exclude_hosts \<Rightarrow>
          (case ip_network_hosts ip p of
             None \<Rightarrow> None
           | Some hs \<Rightarrow> Some (length (remdups (filter (\<lambda>a. a \<notin> set exclude_hosts) hs)))))"

text \<open>The loop over the prefixes: \<^verbatim>\<open>max_session_count\<close> and the prefixes warned about.\<close>

fun count_hosts :: "'a ipaddress \<Rightarrow> string list \<Rightarrow> string list \<Rightarrow> int \<times> string list" where
  "count_hosts ip exclude [] = (0, [])"
| "count_hosts ip exclude (p # ps) =
     (case count_hosts ip exclude ps of
        (n, skipped) \<Rightarrow>
          (case prefix_hosts ip exclude p of
             None \<Rightarrow> (n, p # skipped)
           | Some k \<Rightarrow> (int k + n, skipped)))"

definition exclude_of :: "policy_entry \<Rightarrow> string list" where
  "exclude_of e = (case entry_exclude e of None \<Rightarrow> [] | Some xs \<Rightarrow> xs)"

text \<open>\<^verbatim>\<open>entry.get("serviceGatewayUserPlane", None)\<close>: the static pin of an entry, if any.\<close>

definition requested_sgup :: "policy_entry \<Rightarrow> string option" where
  "requested_sgup e = (case entry_serviceGatewayUserPlane e of None \<Rightarrow> None | Some v \<Rightarrow> v)"

text \<open>
  The loop body for one policy entry. \<open>sgups\<close> are the names \<^verbatim>\<open>list_service_gateway_user_planes\<close>
  returns (the store does not change during the invocation), \<open>existing\<close> the names of the
  stored shards, \<open>sgup_names\<close> the list that the dynamic binding pops from.
\<close>

definition create_item ::
  "'a ipaddress \<Rightarrow> string \<Rightarrow> string list \<Rightarrow> string list \<Rightarrow> policy_entry \<Rightarrow> string list \<Rightarrow>
     c3_event list \<times> string list" where
  "create_item ip virtual_mac sgups existing e sgup_names =
     (case entry_name e of
        None \<Rightarrow> ([C3_warning (Parameter_not_found ''name'' e)], sgup_names)
      | Some n \<Rightarrow>
          (case entry_prefixes e of
             None \<Rightarrow> ([C3_warning (Parameter_not_found ''prefixes'' e)], sgup_names)
           | Some ps \<Rightarrow>
               if n \<in> set existing then ([], sgup_names)
               else
                 (case count_hosts ip (exclude_of e) ps of
                    (max_count, skipped) \<Rightarrow>
                      (let warns = map (\<lambda>p. C3_warning (Invalid_prefix p e)) skipped;
                           params = \<lparr> c_name = n,
                                      c_virtual_mac = virtual_mac,
                                      c_allocated_session_count = 0,
                                      c_max_session_count = max_count,
                                      c_prefix = ps,
                                      c_desired_service_gateway_user_plane = None \<rparr>;
                           sgup_names1 = (if sgup_names = [] then sgups else sgup_names)
                       in (case requested_sgup e of
                             Some desired_sgup \<Rightarrow>
                               if desired_sgup \<notin> set sgups
                               then (warns @ [C3_warning (Desired_sgup_unavailable n desired_sgup)],
                                     sgup_names1)
                               else (warns @ [Create_shard e
                                        (params \<lparr> c_desired_service_gateway_user_plane :=
                                                    Some desired_sgup \<rparr>)],
                                     sgup_names1)
                           | None \<Rightarrow>
                               (case sgup_names1 of
                                  [] \<Rightarrow> (warns @ [Create_shard e params], sgup_names1)
                                | x # xs \<Rightarrow>
                                    (warns @ [Create_shard e
                                        (params \<lparr> c_desired_service_gateway_user_plane :=
                                                    Some x \<rparr>)],
                                     xs)))))))"

fun create_items_loop ::
  "'a ipaddress \<Rightarrow> string \<Rightarrow> string list \<Rightarrow> string list \<Rightarrow> string list \<Rightarrow> policy_entry list \<Rightarrow>
     c3_event list" where
  "create_items_loop ip virtual_mac sgups existing sgup_names [] = []"
| "create_items_loop ip virtual_mac sgups existing sgup_names (e # es) =
     (case create_item ip virtual_mac sgups existing e sgup_names of
        (evs, sgup_names') \<Rightarrow>
          evs @ create_items_loop ip virtual_mac sgups existing sgup_names' es)"

definition create_default_items ::
  "'a ipaddress \<Rightarrow> string \<Rightarrow> config_file \<Rightarrow> store \<Rightarrow> py_error + c3_event list" where
  "create_default_items ip virtual_mac cfg S =
     (case cfg of
        File_absent \<Rightarrow> Inr []
      | Document_empty \<Rightarrow>
          if service_gateway_user_planes S = [] then Inr [C3_warning No_sgups]
          else Inl AttributeError
      | Document es \<Rightarrow>
          if service_gateway_user_planes S = [] then Inr [C3_warning No_sgups]
          else Inr (create_items_loop ip virtual_mac
                      (map sgup_name (service_gateway_user_planes S))
                      (map shard_name (shards S)) [] es))"

definition created :: "c3_event list \<Rightarrow> (policy_entry \<times> create_params) list" where
  "created evs =
     concat (map (\<lambda>ev. case ev of Create_shard e p \<Rightarrow> [(e, p)] | C3_warning w \<Rightarrow> []) evs)"

text \<open>
  The desired SGUPs of the shards created for entries without static pin, in the order
  of creation.
\<close>

definition dynamic_bindings :: "c3_event list \<Rightarrow> string option list" where
  "dynamic_bindings evs =
     map (\<lambda>(e, p). c_desired_service_gateway_user_plane p)
       (filter (\<lambda>(e, p). requested_sgup e = None) (created evs))"

section \<open>Concrete instances\<close>

text \<open>
  An instance of the runtime, for evaluating the model on concrete snapshots: the digest is
  the identity (distinct strings have distinct digests), a set iterates in the order of
  first insertion, and the quotient is the exact rational.
\<close>

definition insertion_order :: "string list \<Rightarrow> string list" where
  "insertion_order xs = fold (\<lambda>x acc. if x \<in> set acc then acc else acc @ [x]) xs []"

definition example_runtime :: "(string, rat) runtime" where
  "example_runtime =
     \<lparr> sha256_hexdigest = (\<lambda>s. s),
       set_iter = insertion_order,
       truediv = (\<lambda>a b. rat_of_int a / rat_of_int b) \<rparr>"

definition sgup_of :: "string \<Rightarrow> string \<Rightarrow> int \<Rightarrow> int \<Rightarrow> string \<Rightarrow> service_gateway_user_plane" where
  "sgup_of n sg alloc cap ep =
     \<lparr> sgup_name = n, service_gateway_name = sg, max_session_count = cap,
       supported_service_group = [], sgup_default_endpoint = \<lparr> endpoint_name = ep \<rparr>,
       allocated_session_count = alloc \<rparr>"

definition tsf_of :: "string \<Rightarrow> string \<Rightarrow> traffic_steering_function" where
  "tsf_of n ep = \<lparr> tsf_name = n, tsf_default_endpoint = \<lparr> endpoint_name = ep \<rparr> \<rparr>"

definition shard_of :: "string \<Rightarrow> string list \<Rightarrow> string \<Rightarrow> string list \<Rightarrow> shard" where
  "shard_of n pfx up ncs =
     \<lparr> shard_name = n, prefix = pfx, desired_service_gateway_user_plane = up,
       desired_network_connection = ncs, current_tsf_network_connection = [],
       service_groups_supported = [] \<rparr>"

text \<open>A network connection with the given tag and every sub-message at its default.\<close>

definition nc_of :: "string \<Rightarrow> string \<Rightarrow> network_connection" where
  "nc_of n tag =
     \<lparr> nc_name = n, nc_spec_type = Some tag,
       ss_ptp = \<lparr> ss_ptp_tsf_endpoint = \<lparr> endpoint_name = [] \<rparr>, ss_ptp_sgup_endpoint = [] \<rparr>,
       ss_mptp = \<lparr> ss_mptp_tsf_endpoint = [], ss_mptp_sgup_endpoint = [] \<rparr>,
       ms_ptp = \<lparr> ms_ptp_tsf_endpoint = \<lparr> endpoint_name = [] \<rparr>,
                  ms_ptp_sgup_endpoint = \<lparr> endpoint_name = [] \<rparr> \<rparr>,
       ms_mptp = \<lparr> ms_mptp_tsf_endpoint = [],
                   ms_mptp_sgup_endpoint = \<lparr> endpoint_name = [] \<rparr> \<rparr> \<rparr>"

definition pinned :: "string \<Rightarrow> string \<Rightarrow> policy_entry" where
  "pinned n up =
     \<lparr> entry_name = Some n, entry_prefixes = Some [], entry_exclude = None,
       entry_serviceGatewayUserPlane = Some (Some up) \<rparr>"

text \<open>
  An instance of the two \<^verbatim>\<open>ipaddress\<close> functions for IPv4 in dotted-quad text, an address
  being its 32-bit number: four decimal octets of at most three digits without a leading
  zero, and for a network an optional \<^verbatim>\<open>/length\<close> with no host bit set (the strict
  mode). The hosts of a network leave out its network and broadcast address, except for
  the lengths 31 and 32. IPv6 and the netmask notation are outside this instance.
\<close>

definition digit_of :: "char \<Rightarrow> nat option" where
  "digit_of c =
     (let n = of_char c :: nat in if 48 \<le> n \<and> n \<le> 57 then Some (n - 48) else None)"

fun decimal_from :: "nat \<Rightarrow> string \<Rightarrow> nat option" where
  "decimal_from n [] = Some n"
| "decimal_from n (c # cs) =
     (case digit_of c of None \<Rightarrow> None | Some d \<Rightarrow> decimal_from (10 * n + d) cs)"

definition decimal :: "string \<Rightarrow> nat option" where
  "decimal s = (if s = [] then None else decimal_from 0 s)"

fun split :: "char \<Rightarrow> string \<Rightarrow> string list" where
  "split sep [] = [[]]"
| "split sep (c # cs) =
     (if c = sep then [] # split sep cs
      else (case split sep cs of [] \<Rightarrow> [[c]] | x # xs \<Rightarrow> (c # x) # xs))"

definition octet :: "string \<Rightarrow> nat option" where
  "octet s =
     (if length s > 3 \<or> (length s > 1 \<and> take 1 s = ''0'') then None
      else (case decimal s of
              None \<Rightarrow> None
            | Some n \<Rightarrow> if n \<le> 255 then Some n else None))"

definition ipv4_address :: "string \<Rightarrow> nat option" where
  "ipv4_address s =
     (case map octet (split (CHR ''.'') s) of
        [Some a, Some b, Some c, Some d] \<Rightarrow> Some (((a * 256 + b) * 256 + c) * 256 + d)
      | _ \<Rightarrow> None)"

definition ipv4_hosts :: "nat \<Rightarrow> nat \<Rightarrow> nat list option" where
  "ipv4_hosts n len =
     (if len > 32 \<or> n mod 2 ^ (32 - len) \<noteq> 0 then None
      else if len = 32 then Some [n]
      else if len = 31 then Some [n, n + 1]
      else Some [n + 1 ..< n + 2 ^ (32 - len) - 1])"

definition ipv4_network_hosts :: "string \<Rightarrow> nat list option" where
  "ipv4_network_hosts s =
     (case split (CHR ''/'') s of
        [a] \<Rightarrow> (case ipv4_address a of None \<Rightarrow> None | Some n \<Rightarrow> ipv4_hosts n 32)
      | [a, l] \<Rightarrow>
          (case ipv4_address a of
             None \<Rightarrow> None
           | Some n \<Rightarrow> (case decimal l of None \<Rightarrow> None | Some len \<Rightarrow> ipv4_hosts n len))
      | _ \<Rightarrow> None)"

definition ipv4 :: "nat ipaddress" where
  "ipv4 = \<lparr> ip_address = ipv4_address, ip_network_hosts = ipv4_network_hosts \<rparr>"

definition entry_of :: "string \<Rightarrow> string list \<Rightarrow> string list \<Rightarrow> policy_entry" where
  "entry_of n pfx excl =
     \<lparr> entry_name = Some n, entry_prefixes = Some pfx, entry_exclude = Some excl,
       entry_serviceGatewayUserPlane = None \<rparr>"

definition one_sgup :: store where
  "one_sgup =
     \<lparr> service_gateways = [\<lparr> sg_name = ''sg'' \<rparr>],
       service_gateway_user_planes = [sgup_of ''A'' ''sg'' 0 100 ''ep-A''],
       shards = [], traffic_steering_functions = [], network_connections = [] \<rparr>"

definition params_of :: "string \<Rightarrow> string option \<Rightarrow> create_params" where
  "params_of n up =
     \<lparr> c_name = n, c_virtual_mac = ''00:00:01:00:00:00'', c_allocated_session_count = 0,
       c_max_session_count = 0, c_prefix = [],
       c_desired_service_gateway_user_plane = up \<rparr>"

definition three_sgups :: "service_gateway_user_plane list" where
  "three_sgups =
     [sgup_of ''A'' ''sg'' 10 100 ''ep-A'',
      sgup_of ''B'' ''sg'' 5 100 ''ep-B'',
      sgup_of ''C'' ''sg'' 50 100 ''ep-C'']"

definition empty_fleet :: store where
  "empty_fleet =
     \<lparr> service_gateways = [], service_gateway_user_planes = [],
       shards = [shard_of ''s1'' [''10.0.0.0/30''] ''u-old'' [''nc-x'']],
       traffic_steering_functions = [], network_connections = [] \<rparr>"

definition fleet_abc :: store where
  "fleet_abc =
     \<lparr> service_gateways = [\<lparr> sg_name = ''sg'' \<rparr>], service_gateway_user_planes = three_sgups,
       shards = [shard_of ''s'' [''10.0.0.0/30''] '''' []],
       traffic_steering_functions = [], network_connections = [] \<rparr>"

definition pinned_fleet :: store where
  "pinned_fleet =
     \<lparr> service_gateways = [\<lparr> sg_name = ''sg'' \<rparr>],
       service_gateway_user_planes =
         [sgup_of ''A'' ''sg'' 10 100 ''ep-A'', sgup_of ''B'' ''sg'' 5 100 ''ep-B''],
       shards = [shard_of ''s'' [''10.0.0.0/30''] ''B'' []],
       traffic_steering_functions = [], network_connections = [] \<rparr>"

definition slash_fleet :: store where
  "slash_fleet =
     \<lparr> service_gateways = [\<lparr> sg_name = ''sg'' \<rparr>],
       service_gateway_user_planes = [sgup_of ''a'' ''sg'' 0 100 ''ep-a''],
       shards = [shard_of ''s'' [''10.0.0.0/30''] ''a/x'' []],
       traffic_steering_functions = [tsf_of ''t1'' ''ep-t''],
       network_connections =
         [(nc_of ''x/'' ''ms_ptp'')
            \<lparr> ms_ptp := \<lparr> ms_ptp_tsf_endpoint = \<lparr> endpoint_name = ''ep-t'' \<rparr>,
                          ms_ptp_sgup_endpoint = \<lparr> endpoint_name = ''ep-a'' \<rparr> \<rparr> \<rparr>] \<rparr>"

definition nc_both :: network_connection where
  "nc_both =
     (nc_of ''nc1'' ''SsMptpSpec'')
       \<lparr> ss_mptp := \<lparr> ss_mptp_tsf_endpoint =
                        [\<lparr> endpoint_name = ''ep-T1'' \<rparr>, \<lparr> endpoint_name = ''ep-T2'' \<rparr>],
                      ss_mptp_sgup_endpoint = [\<lparr> endpoint_name = ''ep-A'' \<rparr>] \<rparr> \<rparr>"

definition nc_single :: "string \<Rightarrow> network_connection" where
  "nc_single tsf_ep =
     (nc_of ''nc2'' ''ms_ptp'')
       \<lparr> ms_ptp := \<lparr> ms_ptp_tsf_endpoint = \<lparr> endpoint_name = tsf_ep \<rparr>,
                     ms_ptp_sgup_endpoint = \<lparr> endpoint_name = ''ep-A'' \<rparr> \<rparr> \<rparr>"

definition slot_fleet :: store where
  "slot_fleet =
     \<lparr> service_gateways = [\<lparr> sg_name = ''sg'' \<rparr>],
       service_gateway_user_planes = [sgup_of ''A'' ''sg'' 10 100 ''ep-A''],
       shards = [shard_of ''s'' [''10.0.0.0/30''] ''A'' [''nc1'', ''nc2'']],
       traffic_steering_functions = [tsf_of ''t1'' ''ep-T1'', tsf_of ''t2'' ''ep-T2''],
       network_connections = [nc_both, nc_single ''ep-T1''] \<rparr>"


definition reset_fleet :: store where
  "reset_fleet =
     \<lparr> service_gateways = [\<lparr> sg_name = ''sg'' \<rparr>], service_gateway_user_planes = [],
       shards = [shard_of ''s1'' [''10.0.0.0/30''] ''u-old'' []],
       traffic_steering_functions = [tsf_of ''t1'' ''ep-T1''], network_connections = [] \<rparr>"

section \<open>Properties of the shard mapper\<close>

lemmas mapper_defs =
  map_shards_def map_shard_def fingerprint_def finger_def encode_ascii_def pick_sgup_def
  get_static_shard_to_sgup_mapping_def sgup_load_def eligible_def load_def
  get_service_gateway_user_plane_def desired_ncs_def tsf_ncs_def
  match_network_connections_def update_of_def nc_hits_def reset_of_def

lemmas instance_defs =
  example_runtime_def insertion_order_def sgup_of_def tsf_of_def shard_of_def nc_of_def
  pinned_def

subsection \<open>The empty-plane branch\<close>

text \<open>
  Claim C7. When the snapshot has no SGUP, the sweep logs its warning, issues for each
  shard with a non-empty desired SGUP exactly one \<^verbatim>\<open>update_shard\<close> that carries only the
  name, the shard's prefix and the merge strategy \<^verbatim>\<open>replace\<close>, issues nothing for a shard
  whose desired SGUP is empty, and returns: nothing else happens, whatever the policy, the
  TSFs and the network connections are.
\<close>

theorem map_shards_no_user_planes:
  "service_gateway_user_planes S = [] \<Longrightarrow>
   map_shards rt cfg S =
     (Warning No_user_planes #
        map (\<lambda>h. Update_shard
               \<lparr> u_name = shard_name h,
                 u_desired_service_gateway_user_plane = None,
                 u_desired_network_connection = None,
                 u_current_tsf_network_connection = None,
                 u_service_groups_supported = None,
                 u_prefix = prefix h,
                 u_list_merge_strategy = ''replace'' \<rparr>)
          (filter (\<lambda>h. desired_service_gateway_user_plane h \<noteq> '''') (shards S)),
      Returned)"
  by (simp add: map_shards_def reset_of_def)

text \<open>
  The spec's ``empty fleet'' scenario, with a second shard that has no desired SGUP.
\<close>

theorem map_shards_no_user_planes_witness:
  "map_shards example_runtime File_absent
     \<lparr> service_gateways = [], service_gateway_user_planes = [],
       shards = [shard_of ''s1'' [''10.0.0.0/30''] ''u-old'' [''nc-x''],
                 shard_of ''s2'' [''10.0.1.0/30''] '''' []],
       traffic_steering_functions = [tsf_of ''t1'' ''ep-T1''],
       network_connections = [] \<rparr> =
     ([Warning No_user_planes,
       Update_shard
         \<lparr> u_name = ''s1'',
           u_desired_service_gateway_user_plane = None,
           u_desired_network_connection = None,
           u_current_tsf_network_connection = None,
           u_service_groups_supported = None,
           u_prefix = [''10.0.0.0/30''],
           u_list_merge_strategy = ''replace'' \<rparr>],
      Returned)"
  using map_shards_no_user_planes [of
     "\<lparr> service_gateways = [], service_gateway_user_planes = [],
       shards = [shard_of ''s1'' [''10.0.0.0/30''] ''u-old'' [''nc-x''],
                 shard_of ''s2'' [''10.0.1.0/30''] '''' []],
       traffic_steering_functions = [tsf_of ''t1'' ''ep-T1''],
       network_connections = [] \<rparr>" example_runtime File_absent]
  by (simp add: shard_of_def)

subsection \<open>A static pin that cannot be resolved\<close>

text \<open>
  Claim C1. A shard whose static pin names an unknown SGUP should be the only one
  abandoned. The source leaves the loop with \<^verbatim>\<open>return\<close> at that point (the sibling branch
  for an empty candidate set uses \<^verbatim>\<open>continue\<close>), so the shards after it are not processed.
  With the policy pinning \<open>s1\<close> to the unknown \<open>Z\<close>, the sweep over \<open>s1, s2\<close> warns and ends
  without a write, although the sweep over \<open>s2\<close> alone binds \<open>s2\<close> to the least-loaded \<open>B\<close>.
\<close>

theorem map_shards_unresolvable_pin_ends_sweep:
  "map_shards example_runtime (Document [pinned ''s1'' ''Z''])
     \<lparr> service_gateways = [\<lparr> sg_name = ''sg'' \<rparr>],
       service_gateway_user_planes =
         [sgup_of ''A'' ''sg'' 10 100 ''ep-A'', sgup_of ''B'' ''sg'' 5 100 ''ep-B''],
       shards = [shard_of ''s1'' [] '''' [], shard_of ''s2'' [] '''' []],
       traffic_steering_functions = [],
       network_connections = [] \<rparr>
     = ([Warning (Static_sgup_unavailable ''s1'' ''Z'')], Returned)
   \<and> map_shards example_runtime (Document [pinned ''s1'' ''Z''])
     \<lparr> service_gateways = [\<lparr> sg_name = ''sg'' \<rparr>],
       service_gateway_user_planes =
         [sgup_of ''A'' ''sg'' 10 100 ''ep-A'', sgup_of ''B'' ''sg'' 5 100 ''ep-B''],
       shards = [shard_of ''s2'' [] '''' []],
       traffic_steering_functions = [],
       network_connections = [] \<rparr>
     = ([Update_shard
           \<lparr> u_name = ''s2'',
             u_desired_service_gateway_user_plane = Some ''B'',
             u_desired_network_connection = Some [],
             u_current_tsf_network_connection = Some [],
             u_service_groups_supported = Some [],
             u_prefix = [],
             u_list_merge_strategy = ''replace'' \<rparr>],
        Finished)"
  by (simp add: mapper_defs instance_defs)

subsection \<open>Least-loaded selection\<close>

text \<open>Dictionaries built by assignment, and the first key of least value.\<close>

lemma dict_set_keys: "fst ` set (dict_set k v d) = insert k (fst ` set d)"
  by (induction d) force+


lemma fold_dict_set_keys:
  "fst ` set (fold (\<lambda>u d. dict_set (kf u) (vf u) d) us d) = fst ` set d \<union> kf ` set us"
  by (induction us arbitrary: d) (auto simp: dict_set_keys)



lemma min_from_mem: "min_from b xs \<in> set (b # xs)"
  by (induction xs arbitrary: b) auto





lemma writes_simps [simp]:
  "writes [] = []"
  "writes (Warning w # evs) = writes evs"
  "writes (Update_shard p # evs) = p # writes evs"
  "writes (evs @ evs') = writes evs @ writes evs'"
  by (simp_all add: writes_def)




subsection \<open>The tags of the four topologies\<close>

text \<open>
  Claim C3. Both tag forms of a variant should give the same matching decision. The
  source tests the SS-MPTP variant against \<^verbatim>\<open>"SsMptpSpec"\<close> and \<^verbatim>\<open>"ss_mptpc"\<close>, so a
  network connection tagged \<^verbatim>\<open>ss_mptp\<close> falls through every branch: with a matching
  (SGUP endpoint, TSF endpoint) pair it is recorded under the CamelCase tag and not
  recorded under the snake-case tag.
\<close>

theorem ss_mptp_tag_not_recognized:
  "match_network_connections ''ep-A'' [tsf_of ''t1'' ''ep-T1'']
     [(nc_of ''nc1'' ''SsMptpSpec'')
        \<lparr> ss_mptp := \<lparr> ss_mptp_tsf_endpoint = [\<lparr> endpoint_name = ''ep-T1'' \<rparr>],
                       ss_mptp_sgup_endpoint = [\<lparr> endpoint_name = ''ep-A'' \<rparr>] \<rparr> \<rparr>]
     = [(''t1'', ''nc1'')]
   \<and> match_network_connections ''ep-A'' [tsf_of ''t1'' ''ep-T1'']
     [(nc_of ''nc1'' ''ss_mptp'')
        \<lparr> ss_mptp := \<lparr> ss_mptp_tsf_endpoint = [\<lparr> endpoint_name = ''ep-T1'' \<rparr>],
                       ss_mptp_sgup_endpoint = [\<lparr> endpoint_name = ''ep-A'' \<rparr>] \<rparr> \<rparr>]
     = []"
  by (simp add: mapper_defs instance_defs)

text \<open>The other three variants are recognized under both forms of their tag.\<close>

lemma nc_hits_both_tags:
  "nc_hits ep t (nc \<lparr> nc_spec_type := Some ''ss_ptp'' \<rparr>)
     = nc_hits ep t (nc \<lparr> nc_spec_type := Some ''SsPtpSpec'' \<rparr>)"
  "nc_hits ep t (nc \<lparr> nc_spec_type := Some ''ms_ptp'' \<rparr>)
     = nc_hits ep t (nc \<lparr> nc_spec_type := Some ''MsPtpSpec'' \<rparr>)"
  "nc_hits ep t (nc \<lparr> nc_spec_type := Some ''ms_mptp'' \<rparr>)
     = nc_hits ep t (nc \<lparr> nc_spec_type := Some ''MsMptpSpec'' \<rparr>)"
  by (simp_all add: nc_hits_def)

subsection \<open>Two sweeps on a frozen store\<close>

lemma get_sgup_Some:
  "get_service_gateway_user_plane sgups n = Some u \<Longrightarrow> sgup_name u = n \<and> u \<in> set sgups"
  by (auto simp: get_service_gateway_user_plane_def find_Some_iff)

lemma sgup_load_keys:
  "fst ` set (sgup_load rt sg_names sgups) = sgup_name ` set (eligible sg_names sgups)"
  by (simp add: sgup_load_def fold_dict_set_keys)

text \<open>Step (b) without the intermediate names.\<close>

lemma pick_sgup_eq:
  "pick_sgup rt cfg sg_names sgups h =
     (case get_static_shard_to_sgup_mapping cfg (shard_name h) of
        Some s \<Rightarrow>
          if s \<in> sgup_name ` set sgups then Inr s
          else Inl ([Warning (Static_sgup_unavailable (shard_name h) s)], Some Returned)
      | None \<Rightarrow>
          if desired_service_gateway_user_plane h \<in> sgup_name ` set sgups
          then Inr (desired_service_gateway_user_plane h)
          else (case sgup_load rt sg_names sgups of
                  [] \<Rightarrow> Inl ([Warning (No_candidates (shard_name h))], None)
                | x # xs \<Rightarrow> Inr (fst (min_from x xs))))"
  by (auto simp: pick_sgup_def Let_def split: option.splits list.splits)

lemma pick_sgup_in_names:
  assumes "pick_sgup rt cfg sg_names sgups h = Inr n"
  shows "n \<in> sgup_name ` set sgups"
proof (cases "get_static_shard_to_sgup_mapping cfg (shard_name h)")
  case (Some s)
  with assms show ?thesis
    by (auto simp: pick_sgup_eq split: if_splits)
next
  case None
  show ?thesis
  proof (cases "desired_service_gateway_user_plane h \<in> sgup_name ` set sgups")
    case True
    with None assms show ?thesis by (auto simp: pick_sgup_eq)
  next
    case False
    with None assms obtain x xs where
      l: "sgup_load rt sg_names sgups = x # xs" and n: "n = fst (min_from x xs)"
      by (auto simp: pick_sgup_eq split: list.splits)
    have "min_from x xs \<in> set (sgup_load rt sg_names sgups)"
      unfolding l by (rule min_from_mem)
    then have "n \<in> fst ` set (sgup_load rt sg_names sgups)"
      using n by simp
    then show ?thesis
      by (auto simp: sgup_load_keys eligible_def)
  qed
qed

lemma pick_sgup_static:
  "pick_sgup rt cfg sg_names sgups h = Inr n \<Longrightarrow>
   get_static_shard_to_sgup_mapping cfg (shard_name h) = Some s \<Longrightarrow> n = s"
  by (auto simp: pick_sgup_eq split: if_splits)

lemma pick_sgup_stable:
  assumes p: "pick_sgup rt cfg sg_names sgups h = Inr n"
    and nm: "shard_name h' = shard_name h"
    and d: "desired_service_gateway_user_plane h' = n"
  shows "pick_sgup rt cfg sg_names sgups h' = Inr n"
proof -
  from p have "n \<in> sgup_name ` set sgups" by (rule pick_sgup_in_names)
  moreover have "\<And>s. get_static_shard_to_sgup_mapping cfg (shard_name h) = Some s \<Longrightarrow> n = s"
    using p by (rule pick_sgup_static)
  ultimately show ?thesis
    using nm d by (auto simp: pick_sgup_eq split: option.splits)
qed

lemma pick_sgup_events:
  "pick_sgup rt cfg sg_names sgups h = Inl (evs, e) \<Longrightarrow> writes evs = []"
  by (auto simp: pick_sgup_eq split: option.splits if_splits list.splits)

text \<open>The per-shard body issues at most one write, and only when it goes on.\<close>

lemma map_shard_Update:
  assumes "Update_shard p \<in> set (fst (map_shard rt cfg sg_names sgups tsfs ncs h))"
  shows "\<exists>n u. pick_sgup rt cfg sg_names sgups h = Inr n
           \<and> get_service_gateway_user_plane sgups n = Some u
           \<and> p = update_of h u (desired_ncs rt tsfs ncs u) (tsf_ncs tsfs ncs u)
           \<and> (\<exists>fa fd. fingerprint rt (desired_service_gateway_user_plane h)
                         (desired_network_connection h) = Inr fa
                      \<and> fingerprint rt (sgup_name u) (desired_ncs rt tsfs ncs u) = Inr fd
                      \<and> fd \<noteq> fa)
           \<and> map_shard rt cfg sg_names sgups tsfs ncs h = ([Update_shard p], None)"
proof (cases "pick_sgup rt cfg sg_names sgups h")
  case (Inl r)
  then have "writes (fst r) = []"
    using pick_sgup_events [of rt cfg sg_names sgups h "fst r" "snd r"] by simp
  then have "Update_shard p \<notin> set (fst r)"
    by (induction "fst r" arbitrary: r) (auto simp: writes_def split: event.splits)
  with Inl assms show ?thesis
    by (auto simp: map_shard_def split: sum.splits)
next
  case (Inr n)
  with assms show ?thesis
    by (auto simp: map_shard_def split: sum.splits option.splits if_splits)
qed

lemma map_shard_writes:
  "writes (fst (map_shard rt cfg sg_names sgups tsfs ncs h)) = []
   \<or> (\<exists>p. map_shard rt cfg sg_names sgups tsfs ncs h = ([Update_shard p], None))"
proof (cases "pick_sgup rt cfg sg_names sgups h")
  case (Inl r)
  then have "writes (fst r) = []"
    using pick_sgup_events [of rt cfg sg_names sgups h "fst r" "snd r"] by simp
  with Inl show ?thesis
    by (auto simp: map_shard_def split: sum.splits)
next
  case (Inr n)
  then show ?thesis
    by (auto simp: map_shard_def split: sum.splits option.splits if_splits)
qed

text \<open>The effect of an update on the stored shard, and of a list of updates on the store.\<close>

lemma update_shard_store_simps [simp]:
  "shard_name (update_shard_store p h) = shard_name h"
  "prefix (update_shard_store p h) = u_prefix p"
  "desired_service_gateway_user_plane (update_shard_store p h) =
     (case u_desired_service_gateway_user_plane p of
        None \<Rightarrow> desired_service_gateway_user_plane h | Some u \<Rightarrow> u)"
  "desired_network_connection (update_shard_store p h) =
     (case u_desired_network_connection p of None \<Rightarrow> [] | Some l \<Rightarrow> l)"
  by (simp_all add: update_shard_store_def)

lemma update_of_simps [simp]:
  "u_name (update_of h u dnc tnc) = shard_name h"
  "u_desired_service_gateway_user_plane (update_of h u dnc tnc) = Some (sgup_name u)"
  "u_desired_network_connection (update_of h u dnc tnc) = Some dnc"
  "u_prefix (update_of h u dnc tnc) = prefix h"
  by (simp_all add: update_of_def)

lemma map_shard_stable:
  assumes "map_shard rt cfg sg_names sgups tsfs ncs h = ([Update_shard p], None)"
  shows "map_shard rt cfg sg_names sgups tsfs ncs (update_shard_store p h) = ([], None)"
proof -
  from assms have "Update_shard p \<in> set (fst (map_shard rt cfg sg_names sgups tsfs ncs h))"
    by simp
  from map_shard_Update [OF this] obtain n u fd where
    p: "pick_sgup rt cfg sg_names sgups h = Inr n"
    and g: "get_service_gateway_user_plane sgups n = Some u"
    and pe: "p = update_of h u (desired_ncs rt tsfs ncs u) (tsf_ncs tsfs ncs u)"
    and fd: "fingerprint rt (sgup_name u) (desired_ncs rt tsfs ncs u) = Inr fd"
    by blast
  from g have nu: "sgup_name u = n" by (simp add: get_sgup_Some)
  let ?h' = "update_shard_store p h"
  have d: "desired_service_gateway_user_plane ?h' = n"
    and dn: "desired_network_connection ?h' = desired_ncs rt tsfs ncs u"
    using pe nu by simp_all
  have "pick_sgup rt cfg sg_names sgups ?h' = Inr n"
    using p _ d by (rule pick_sgup_stable) simp
  with g d dn fd nu show ?thesis
    by (simp add: map_shard_def)
qed

lemma shard_after_simps [simp]:
  "shard_after [] h = h"
  "shard_after (p # ps) h =
     shard_after ps (if shard_name h = u_name p then update_shard_store p h else h)"
  "shard_after (ps @ qs) h = shard_after qs (shard_after ps h)"
  by (simp_all add: shard_after_def)

lemma shard_after_name [simp]: "shard_name (shard_after ps h) = shard_name h"
  by (induction ps arbitrary: h) auto

lemma shard_after_other:
  "\<forall>p \<in> set ps. u_name p \<noteq> shard_name h \<Longrightarrow> shard_after ps h = h"
  by (induction ps arbitrary: h) auto

lemma apply_writes_map: "apply_writes ps hs = map (shard_after ps) hs"
proof (induction ps arbitrary: hs)
  case Nil
  show ?case by (simp add: apply_writes_def)
next
  case (Cons p ps)
  have "apply_writes (p # ps) hs = apply_writes ps (update_shard p hs)"
    by (simp add: apply_writes_def)
  also have "\<dots> = map (shard_after ps) (update_shard p hs)"
    by (rule Cons.IH)
  also have "\<dots> = map (shard_after (p # ps)) hs"
    by (simp add: update_shard_def)
  finally show ?case .
qed

lemma map_shards_loop_write_names:
  "p \<in> set (writes (fst (map_shards_loop rt cfg sg_names sgups tsfs ncs hs))) \<Longrightarrow>
   u_name p \<in> shard_name ` set hs"
proof (induction hs)
  case Nil
  then show ?case by simp
next
  case (Cons h hs)
  obtain evs e where m: "map_shard rt cfg sg_names sgups tsfs ncs h = (evs, e)"
    by (cases "map_shard rt cfg sg_names sgups tsfs ncs h")
  have own: "\<And>q. q \<in> set (writes evs) \<Longrightarrow> u_name q = shard_name h"
  proof -
    fix q assume "q \<in> set (writes evs)"
    then have "Update_shard q \<in> set evs"
      by (induction evs) (auto simp: writes_def split: event.splits)
    with m have "Update_shard q \<in> set (fst (map_shard rt cfg sg_names sgups tsfs ncs h))"
      by simp
    from map_shard_Update [OF this] show "u_name q = shard_name h" by auto
  qed
  show ?case
  proof (cases e)
    case (Some x)
    with m Cons.prems own show ?thesis by auto
  next
    case None
    with m Cons.prems own Cons.IH show ?thesis
      by (auto split: prod.splits)
  qed
qed

lemma mem_writes: "q \<in> set (writes evs) \<longleftrightarrow> Update_shard q \<in> set evs"
  by (induction evs) (auto simp: writes_def split: event.splits)

lemma map_shard_write_name:
  "map_shard rt cfg sg_names sgups tsfs ncs h = (evs, e) \<Longrightarrow> q \<in> set (writes evs) \<Longrightarrow>
   u_name q = shard_name h"
  using map_shard_Update [of q rt cfg sg_names sgups tsfs ncs h]
  by (auto simp: mem_writes)

text \<open>What the per-shard body leaves in the store for its own shard.\<close>

lemma map_shard_after:
  assumes "map_shard rt cfg sg_names sgups tsfs ncs h = (evs, e)"
  shows "writes (fst (map_shard rt cfg sg_names sgups tsfs ncs (shard_after (writes evs) h))) = []
       \<and> (e = None \<longrightarrow>
            snd (map_shard rt cfg sg_names sgups tsfs ncs (shard_after (writes evs) h)) = None)
       \<and> (\<forall>x. e = Some x \<longrightarrow> writes evs = [])"
proof -
  from map_shard_writes [of rt cfg sg_names sgups tsfs ncs h]
  consider "writes evs = []" | p where "evs = [Update_shard p]" "e = None"
    using assms by auto
  then show ?thesis
  proof cases
    case 1
    with assms show ?thesis by simp
  next
    case 2
    from assms 2 have "map_shard rt cfg sg_names sgups tsfs ncs h = ([Update_shard p], None)"
      by simp
    from map_shard_stable [OF this] map_shard_write_name [OF this, of p] 2
    show ?thesis by simp
  qed
qed

lemma map_shards_loop_idempotent:
  "distinct (map shard_name hs) \<Longrightarrow>
   writes (fst (map_shards_loop rt cfg sg_names sgups tsfs ncs
     (map (shard_after (writes (fst (map_shards_loop rt cfg sg_names sgups tsfs ncs hs)))) hs)))
   = []"
proof (induction hs)
  case Nil
  show ?case by simp
next
  case (Cons h hs)
  obtain evs e where m: "map_shard rt cfg sg_names sgups tsfs ncs h = (evs, e)"
    by (cases "map_shard rt cfg sg_names sgups tsfs ncs h")
  note after = map_shard_after [OF m]
  show ?case
  proof (cases e)
    case (Some x)
    with after have "writes evs = []" by simp
    with m Some show ?thesis by simp
  next
    case None
    obtain evs' e' where l: "map_shards_loop rt cfg sg_names sgups tsfs ncs hs = (evs', e')"
      by (cases "map_shards_loop rt cfg sg_names sgups tsfs ncs hs")
    let ?W = "writes evs @ writes evs'"
    have own: "\<forall>p \<in> set (writes evs). u_name p = shard_name h"
      using map_shard_write_name [OF m] by blast
    have rest: "\<forall>p \<in> set (writes evs'). u_name p \<in> shard_name ` set hs"
      using map_shards_loop_write_names [of _ rt cfg sg_names sgups tsfs ncs hs] l by simp
    from Cons.prems have "shard_name h \<notin> shard_name ` set hs" by simp
    with rest have "\<forall>p \<in> set (writes evs'). u_name p \<noteq> shard_name h"
      by metis
    then have hd: "shard_after ?W h = shard_after (writes evs) h"
      by (simp add: shard_after_other)
    have "shard_after ?W h' = shard_after (writes evs') h'" if "h' \<in> set hs" for h'
    proof -
      from Cons.prems that have "shard_name h \<noteq> shard_name h'" by auto
      with own have "\<forall>p \<in> set (writes evs). u_name p \<noteq> shard_name h'"
        by metis
      then show ?thesis by (simp add: shard_after_other)
    qed
    then have tl: "map (shard_after ?W) hs = map (shard_after (writes evs')) hs"
      by simp
    obtain evs2 where
      m2: "map_shard rt cfg sg_names sgups tsfs ncs (shard_after (writes evs) h) = (evs2, None)"
      and w2: "writes evs2 = []"
      using after None
      by (cases "map_shard rt cfg sg_names sgups tsfs ncs (shard_after (writes evs) h)") auto
    from Cons.IH Cons.prems l have
      ih: "writes (fst (map_shards_loop rt cfg sg_names sgups tsfs ncs
             (map (shard_after (writes evs')) hs))) = []"
      by simp
    have "map_shards_loop rt cfg sg_names sgups tsfs ncs (h # hs) = (evs @ evs', e')"
      using m None l by simp
    then have full: "writes (fst (map_shards_loop rt cfg sg_names sgups tsfs ncs (h # hs))) = ?W"
      by simp
    have mapeq: "map (shard_after ?W) (h # hs)
                   = shard_after (writes evs) h # map (shard_after (writes evs')) hs"
      by (simp only: list.map hd tl)
    obtain evs3 e3 where
      l3: "map_shards_loop rt cfg sg_names sgups tsfs ncs (map (shard_after (writes evs')) hs)
             = (evs3, e3)"
      by (cases "map_shards_loop rt cfg sg_names sgups tsfs ncs
                   (map (shard_after (writes evs')) hs)")
    with ih have w3: "writes evs3 = []" by simp
    have "map_shards_loop rt cfg sg_names sgups tsfs ncs
            (shard_after (writes evs) h # map (shard_after (writes evs')) hs) = (evs2 @ evs3, e3)"
      using m2 l3 by simp
    then show ?thesis
      unfolding full mapeq using w2 w3 by simp
  qed
qed

lemmas store_defs =
  store_after_def apply_writes_def update_shard_def update_shard_store_def writes_def

text \<open>
  Claim C4, amended. When the store holds at least one SGUP and the shard names are
  distinct, a second sweep over the store as the first sweep left it (same policy, same
  SGs, SGUPs, TSFs and network connections) issues no \<^verbatim>\<open>update_shard\<close>: every shard the
  first sweep wrote now carries the fingerprint the sweep computes, and every other shard
  is as it was. The branch for an empty SGUP list is left out; it has no fingerprint test.
\<close>

theorem map_shards_idempotent:
  assumes "service_gateway_user_planes S \<noteq> []"
    and "distinct (map shard_name (shards S))"
  shows "writes (fst (map_shards rt cfg (store_after rt cfg S))) = []"
  using assms map_shards_loop_idempotent [of "shards S" rt cfg "map sg_name (service_gateways S)"
    "service_gateway_user_planes S" "traffic_steering_functions S" "network_connections S"]
  by (simp add: map_shards_def store_after_def apply_writes_map)

text \<open>
  The ``least-loaded pick'' store: the first sweep binds \<open>s\<close> to \<open>B\<close>, the second writes
  nothing.
\<close>

theorem map_shards_idempotent_witness:
  "service_gateway_user_planes fleet_abc \<noteq> []
   \<and> distinct (map shard_name (shards fleet_abc))
   \<and> writes (fst (map_shards example_runtime File_absent fleet_abc)) =
       [update_of (shard_of ''s'' [''10.0.0.0/30''] '''' []) (sgup_of ''B'' ''sg'' 5 100 ''ep-B'') [] []]
   \<and> writes (fst (map_shards example_runtime File_absent
                    (store_after example_runtime File_absent fleet_abc))) = []"
proof -
  have h1: "service_gateway_user_planes fleet_abc \<noteq> []"
    by (simp add: fleet_abc_def three_sgups_def)
  have h2: "distinct (map shard_name (shards fleet_abc))"
    by (simp add: fleet_abc_def)
  have first: "writes (fst (map_shards example_runtime File_absent fleet_abc)) =
       [update_of (shard_of ''s'' [''10.0.0.0/30''] '''' []) (sgup_of ''B'' ''sg'' 5 100 ''ep-B'') [] []]"
    by (simp add: fleet_abc_def three_sgups_def mapper_defs instance_defs)
  from h1 h2 first map_shards_idempotent [OF h1 h2, of example_runtime File_absent]
  show ?thesis by simp
qed

text \<open>
  Where the claim as stated fails: the spec's ``empty fleet'' store. The reset update does
  not carry the desired SGUP, so the stored shard keeps \<open>u-old\<close> and the second sweep
  issues the same reset again.
\<close>

theorem map_shards_empty_plane_repeats:
  "writes (fst (map_shards example_runtime File_absent empty_fleet)) =
     [\<lparr> u_name = ''s1'',
        u_desired_service_gateway_user_plane = None,
        u_desired_network_connection = None,
        u_current_tsf_network_connection = None,
        u_service_groups_supported = None,
        u_prefix = [''10.0.0.0/30''],
        u_list_merge_strategy = ''replace'' \<rparr>]
   \<and> shards (store_after example_runtime File_absent empty_fleet) =
     [shard_of ''s1'' [''10.0.0.0/30''] ''u-old'' []]
   \<and> writes (fst (map_shards example_runtime File_absent
                    (store_after example_runtime File_absent empty_fleet))) =
     [\<lparr> u_name = ''s1'',
        u_desired_service_gateway_user_plane = None,
        u_desired_network_connection = None,
        u_current_tsf_network_connection = None,
        u_service_groups_supported = None,
        u_prefix = [''10.0.0.0/30''],
        u_list_merge_strategy = ''replace'' \<rparr>]"
  by (simp add: empty_fleet_def mapper_defs store_defs instance_defs)

subsection \<open>Static pins after a sweep\<close>

lemma map_shard_not_Finished:
  "snd (map_shard rt cfg sg_names sgups tsfs ncs h) \<noteq> Some Finished"
  by (auto simp: map_shard_def pick_sgup_eq
           split: sum.splits option.splits if_splits list.splits)

text \<open>In a sweep that runs through, every shard is left as its own body leaves it.\<close>

lemma map_shards_loop_Finished:
  assumes "distinct (map shard_name hs)"
    and "snd (map_shards_loop rt cfg sg_names sgups tsfs ncs hs) = Finished"
    and "h \<in> set hs"
  shows "snd (map_shard rt cfg sg_names sgups tsfs ncs h) = None
       \<and> shard_after (writes (fst (map_shards_loop rt cfg sg_names sgups tsfs ncs hs))) h
           = shard_after (writes (fst (map_shard rt cfg sg_names sgups tsfs ncs h))) h"
  using assms
proof (induction hs)
  case Nil
  then show ?case by simp
next
  case (Cons a hs)
  obtain evs e where m: "map_shard rt cfg sg_names sgups tsfs ncs a = (evs, e)"
    by (cases "map_shard rt cfg sg_names sgups tsfs ncs a")
  obtain evs' e' where l: "map_shards_loop rt cfg sg_names sgups tsfs ncs hs = (evs', e')"
    by (cases "map_shards_loop rt cfg sg_names sgups tsfs ncs hs")
  have e: "e = None"
  proof (cases e)
    case (Some x)
    with m Cons.prems(2) have "x = Finished" by simp
    with Some m map_shard_not_Finished [of rt cfg sg_names sgups tsfs ncs a]
    show ?thesis by simp
  qed simp
  with m l Cons.prems(2) have fin: "e' = Finished" by simp
  have full: "writes (fst (map_shards_loop rt cfg sg_names sgups tsfs ncs (a # hs)))
                = writes evs @ writes evs'"
    using m l e by simp
  have own: "\<forall>p \<in> set (writes evs). u_name p = shard_name a"
    using map_shard_write_name [OF m] by blast
  have rest: "\<forall>p \<in> set (writes evs'). u_name p \<in> shard_name ` set hs"
    using map_shards_loop_write_names [of _ rt cfg sg_names sgups tsfs ncs hs] l by simp
  from Cons.prems(1) have fresh: "shard_name a \<notin> shard_name ` set hs" by simp
  show ?case
  proof (cases "h = a")
    case True
    from rest fresh have "\<forall>p \<in> set (writes evs'). u_name p \<noteq> shard_name a"
      by metis
    then have "shard_after (writes evs') (shard_after (writes evs) a) = shard_after (writes evs) a"
      by (simp add: shard_after_other)
    with True m e show ?thesis
      unfolding full by simp
  next
    case False
    with Cons.prems(3) have mem: "h \<in> set hs" by simp
    with fresh have "shard_name a \<noteq> shard_name h" by auto
    with own have "\<forall>p \<in> set (writes evs). u_name p \<noteq> shard_name h"
      by metis
    then have skip: "shard_after (writes evs) h = h"
      by (simp add: shard_after_other)
    from Cons.IH mem Cons.prems(1) l fin have
      "snd (map_shard rt cfg sg_names sgups tsfs ncs h) = None
       \<and> shard_after (writes evs') h
           = shard_after (writes (fst (map_shard rt cfg sg_names sgups tsfs ncs h))) h"
      by simp
    with skip show ?thesis
      unfolding full by simp
  qed
qed

lemma get_sgup_known:
  "n \<in> sgup_name ` set sgups \<Longrightarrow> \<exists>u. get_service_gateway_user_plane sgups n = Some u"
  by (cases "get_service_gateway_user_plane sgups n")
     (auto simp: get_service_gateway_user_plane_def find_None_iff)

text \<open>The body of a shard whose pin is known to the store.\<close>

lemma map_shard_pinned:
  assumes static: "get_static_shard_to_sgup_mapping cfg (shard_name h) = Some P"
    and g: "get_service_gateway_user_plane sgups P = Some u"
    and go: "snd (map_shard rt cfg sg_names sgups tsfs ncs h) = None"
  shows "desired_service_gateway_user_plane
           (shard_after (writes (fst (map_shard rt cfg sg_names sgups tsfs ncs h))) h) = P
       \<or> (shard_after (writes (fst (map_shard rt cfg sg_names sgups tsfs ncs h))) h = h
          \<and> fingerprint rt P (desired_ncs rt tsfs ncs u)
              = fingerprint rt (desired_service_gateway_user_plane h)
                  (desired_network_connection h))"
proof -
  from g have nu: "sgup_name u = P" and "u \<in> set sgups"
    by (simp_all add: get_sgup_Some)
  then have "P \<in> sgup_name ` set sgups" by auto
  with static have p: "pick_sgup rt cfg sg_names sgups h = Inr P"
    by (simp add: pick_sgup_eq)
  from go p g nu show ?thesis
    by (auto simp: map_shard_def split: sum.splits if_splits)
qed

lemma get_shard_map:
  assumes "distinct (map shard_name hs)" and "h \<in> set hs"
    and "\<And>x. shard_name (g x) = shard_name x"
  shows "get_shard (map g hs) (shard_name h) = Some (g h)"
  using assms(1,2)
  by (induction hs) (auto simp: get_shard_def assms(3) image_iff)

text \<open>
  Claim C6, amended. After a sweep that runs through every shard, on a store with at
  least one SGUP and distinct shard names, a shard whose static pin \<open>P\<close> is the name of a
  stored SGUP has \<open>P\<close> as its desired SGUP, unless the fingerprint of \<open>P\<close> with the network
  connections computed for it equals the fingerprint of the stored desired state: then no
  update is issued and the shard stays as it was. A sweep that ends early is left out.
\<close>

theorem map_shards_static_pin:
  assumes planes: "service_gateway_user_planes S \<noteq> []"
    and names: "distinct (map shard_name (shards S))"
    and fin: "snd (map_shards rt cfg S) = Finished"
    and h: "h \<in> set (shards S)"
    and static: "get_static_shard_to_sgup_mapping cfg (shard_name h) = Some P"
    and known: "P \<in> sgup_name ` set (service_gateway_user_planes S)"
  shows "\<exists>h'. get_shard (shards (store_after rt cfg S)) (shard_name h) = Some h'
          \<and> (desired_service_gateway_user_plane h' = P
             \<or> (\<exists>u. get_service_gateway_user_plane (service_gateway_user_planes S) P = Some u
                    \<and> h' = h
                    \<and> fingerprint rt P
                         (desired_ncs rt (traffic_steering_functions S) (network_connections S) u)
                        = fingerprint rt (desired_service_gateway_user_plane h)
                            (desired_network_connection h)))"
proof -
  let ?sg = "map sg_name (service_gateways S)"
  let ?U = "service_gateway_user_planes S"
  let ?T = "traffic_steering_functions S"
  let ?N = "network_connections S"
  let ?W = "writes (fst (map_shards_loop rt cfg ?sg ?U ?T ?N (shards S)))"
  from planes have ms: "map_shards rt cfg S = map_shards_loop rt cfg ?sg ?U ?T ?N (shards S)"
    by (simp add: map_shards_def)
  from known obtain u where g: "get_service_gateway_user_plane ?U P = Some u"
    using get_sgup_known by blast
  from fin ms have "snd (map_shards_loop rt cfg ?sg ?U ?T ?N (shards S)) = Finished"
    by simp
  from map_shards_loop_Finished [OF names this h] have
    go: "snd (map_shard rt cfg ?sg ?U ?T ?N h) = None"
    and after: "shard_after ?W h = shard_after (writes (fst (map_shard rt cfg ?sg ?U ?T ?N h))) h"
    by simp_all
  have "get_shard (shards (store_after rt cfg S)) (shard_name h) = Some (shard_after ?W h)"
    using get_shard_map [OF names h, of "shard_after ?W"]
    by (simp add: store_after_def apply_writes_map ms)
  moreover from after
  have "desired_service_gateway_user_plane (shard_after ?W h) = P
        \<or> (shard_after ?W h = h
           \<and> fingerprint rt P (desired_ncs rt ?T ?N u)
               = fingerprint rt (desired_service_gateway_user_plane h)
                   (desired_network_connection h))"
    using map_shard_pinned [OF static g go] by simp
  ultimately show ?thesis using g by auto
qed

text \<open>
  The spec's ``static pin honored'' scenario: the policy pins \<open>s\<close> to \<open>A\<close>, the shard is
  bound to \<open>B\<close>; after the sweep it is bound to \<open>A\<close>.
\<close>

theorem map_shards_static_pin_witness:
  "service_gateway_user_planes pinned_fleet \<noteq> []
   \<and> distinct (map shard_name (shards pinned_fleet))
   \<and> snd (map_shards example_runtime (Document [pinned ''s'' ''A'']) pinned_fleet) = Finished
   \<and> shard_of ''s'' [''10.0.0.0/30''] ''B'' [] \<in> set (shards pinned_fleet)
   \<and> get_static_shard_to_sgup_mapping (Document [pinned ''s'' ''A''])
        (shard_name (shard_of ''s'' [''10.0.0.0/30''] ''B'' [])) = Some ''A''
   \<and> ''A'' \<in> sgup_name ` set (service_gateway_user_planes pinned_fleet)
   \<and> map_option desired_service_gateway_user_plane
        (get_shard (shards (store_after example_runtime (Document [pinned ''s'' ''A'']) pinned_fleet))
           ''s'') = Some ''A''"
proof -
  let ?cfg = "Document [pinned ''s'' ''A'']"
  let ?h = "shard_of ''s'' [''10.0.0.0/30''] ''B'' []"
  have sweep: "map_shards example_runtime ?cfg pinned_fleet =
      ([Update_shard (update_of ?h (sgup_of ''A'' ''sg'' 10 100 ''ep-A'') [] [])], Finished)"
    by (simp add: pinned_fleet_def mapper_defs instance_defs)
  have h1: "service_gateway_user_planes pinned_fleet \<noteq> []"
    by (simp add: pinned_fleet_def)
  have h2: "distinct (map shard_name (shards pinned_fleet))"
    by (simp add: pinned_fleet_def)
  have h3: "snd (map_shards example_runtime ?cfg pinned_fleet) = Finished"
    by (simp add: sweep)
  have h4: "?h \<in> set (shards pinned_fleet)"
    by (simp add: pinned_fleet_def)
  have h5: "get_static_shard_to_sgup_mapping ?cfg (shard_name ?h) = Some ''A''"
    by (simp add: get_static_shard_to_sgup_mapping_def instance_defs)
  have h6: "''A'' \<in> sgup_name ` set (service_gateway_user_planes pinned_fleet)"
    by (simp add: pinned_fleet_def instance_defs)
  have fp: "fingerprint example_runtime ''A'' ncl
              \<noteq> fingerprint example_runtime (desired_service_gateway_user_plane ?h)
                   (desired_network_connection ?h)" for ncl
    by (simp add: fingerprint_def finger_def encode_ascii_def instance_defs split: if_splits)
  have nm: "shard_name ?h = ''s''"
    by (simp add: shard_of_def)
  from map_shards_static_pin [OF h1 h2 h3 h4 h5 h6] fp
  have "map_option desired_service_gateway_user_plane
          (get_shard (shards (store_after example_runtime ?cfg pinned_fleet)) ''s'') = Some ''A''"
    unfolding nm by auto
  with h1 h2 h3 h4 h5 h6 show ?thesis by simp
qed

text \<open>
  Where the claim as stated fails. The fingerprint is the SGUP name, a slash and the
  comma-joined connection names. The shard is bound to a stale \<open>a/x\<close> with no connection;
  the pin \<open>a\<close> with the one matching connection \<open>x/\<close> gives the same string \<open>a/x/\<close>, so
  the sweep runs through without an update and the shard keeps \<open>a/x\<close>.
\<close>

theorem map_shards_static_pin_fingerprint_collision:
  "get_static_shard_to_sgup_mapping (Document [pinned ''s'' ''a'']) ''s'' = Some ''a''
   \<and> map sgup_name (service_gateway_user_planes slash_fleet) = [''a'']
   \<and> finger ''a/x'' [] = ''a/x/''
   \<and> finger ''a'' [''x/''] = ''a/x/''
   \<and> map_shards example_runtime (Document [pinned ''s'' ''a'']) slash_fleet = ([], Finished)
   \<and> get_shard (shards (store_after example_runtime (Document [pinned ''s'' ''a'']) slash_fleet)) ''s''
       = Some (shard_of ''s'' [''10.0.0.0/30''] ''a/x'' [])"
proof -
  have sweep: "map_shards example_runtime (Document [pinned ''s'' ''a'']) slash_fleet = ([], Finished)"
    by (simp add: slash_fleet_def mapper_defs instance_defs)
  then show ?thesis
    by (simp add: store_defs get_shard_def finger_def)
       (simp add: slash_fleet_def get_static_shard_to_sgup_mapping_def instance_defs)
qed

subsection \<open>What the write decision depends on\<close>

text \<open>Changing the supported service groups of the SGUPs: what stays the same.\<close>

lemma find_map_comp: "find P (map f xs) = map_option f (find (P \<circ> f) xs)"
  by (induction xs) auto

lemma sgup_load_regroup:
  "sgup_load rt sg_names (map (\<lambda>u. u \<lparr> supported_service_group := g u \<rparr>) sgups)
     = sgup_load rt sg_names sgups"
  by (simp add: sgup_load_def eligible_def filter_map fold_map comp_def load_def)

lemma pick_sgup_regroup:
  "pick_sgup rt cfg sg_names (map (\<lambda>u. u \<lparr> supported_service_group := g u \<rparr>) sgups) h
     = pick_sgup rt cfg sg_names sgups h"
  by (simp add: pick_sgup_eq sgup_load_regroup image_image split: option.splits)

lemma get_sgup_regroup:
  "get_service_gateway_user_plane (map (\<lambda>u. u \<lparr> supported_service_group := g u \<rparr>) sgups) n
     = map_option (\<lambda>u. u \<lparr> supported_service_group := g u \<rparr>)
         (get_service_gateway_user_plane sgups n)"
  by (simp add: get_service_gateway_user_plane_def find_map_comp comp_def)

lemma desired_ncs_regroup:
  "desired_ncs rt tsfs ncs (u \<lparr> supported_service_group := x \<rparr>) = desired_ncs rt tsfs ncs u"
  by (simp add: desired_ncs_def)

lemma decision_update_of:
  "decision (Update_shard (update_of h (u \<lparr> supported_service_group := x \<rparr>) dnc tnc))
     = decision (Update_shard (update_of h u dnc tnc'))"
  by (simp add: decision_def update_of_def)

lemma map_shard_decision:
  assumes "\<forall>u \<in> set sgups. desired_ncs rt tsfs' ncs' u = desired_ncs rt tsfs ncs u"
  shows "map decision (fst (map_shard rt cfg sg_names
             (map (\<lambda>u. u \<lparr> supported_service_group := g u \<rparr>) sgups) tsfs' ncs' h))
           = map decision (fst (map_shard rt cfg sg_names sgups tsfs ncs h))
       \<and> snd (map_shard rt cfg sg_names
             (map (\<lambda>u. u \<lparr> supported_service_group := g u \<rparr>) sgups) tsfs' ncs' h)
           = snd (map_shard rt cfg sg_names sgups tsfs ncs h)"
proof (cases "pick_sgup rt cfg sg_names sgups h")
  case (Inl r)
  then show ?thesis
    by (simp add: map_shard_def pick_sgup_regroup split: sum.splits)
next
  case (Inr n)
  show ?thesis
  proof (cases "get_service_gateway_user_plane sgups n")
    case None
    with Inr show ?thesis
      by (simp add: map_shard_def pick_sgup_regroup get_sgup_regroup split: sum.splits)
  next
    case (Some u)
    then have "u \<in> set sgups" by (simp add: get_sgup_Some)
    with assms have "desired_ncs rt tsfs' ncs' u = desired_ncs rt tsfs ncs u" by simp
    with Inr Some show ?thesis
      by (simp add: map_shard_def pick_sgup_regroup get_sgup_regroup desired_ncs_regroup
            decision_update_of [where tnc' = "tsf_ncs tsfs ncs u"]
          split: sum.splits)
  qed
qed

lemma map_shards_loop_decision:
  assumes "\<forall>u \<in> set sgups. desired_ncs rt tsfs' ncs' u = desired_ncs rt tsfs ncs u"
  shows "map decision (fst (map_shards_loop rt cfg sg_names
             (map (\<lambda>u. u \<lparr> supported_service_group := g u \<rparr>) sgups) tsfs' ncs' hs))
           = map decision (fst (map_shards_loop rt cfg sg_names sgups tsfs ncs hs))
       \<and> snd (map_shards_loop rt cfg sg_names
             (map (\<lambda>u. u \<lparr> supported_service_group := g u \<rparr>) sgups) tsfs' ncs' hs)
           = snd (map_shards_loop rt cfg sg_names sgups tsfs ncs hs)"
proof (induction hs)
  case Nil
  show ?case by simp
next
  case (Cons h hs)
  from map_shard_decision [OF assms, of cfg sg_names g h] Cons.IH show ?case
    by (auto split: prod.splits option.splits)
qed

lemma map_shards_loop_Update:
  assumes "p \<in> set (writes (fst (map_shards_loop rt cfg sg_names sgups tsfs ncs hs)))"
  shows "\<exists>h \<in> set hs. \<exists>u \<in> set sgups.
            p = update_of h u (desired_ncs rt tsfs ncs u) (tsf_ncs tsfs ncs u)
          \<and> fingerprint rt (sgup_name u) (desired_ncs rt tsfs ncs u)
              \<noteq> fingerprint rt (desired_service_gateway_user_plane h)
                   (desired_network_connection h)"
  using assms
proof (induction hs)
  case Nil
  then show ?case by simp
next
  case (Cons h hs)
  obtain evs e where m: "map_shard rt cfg sg_names sgups tsfs ncs h = (evs, e)"
    by (cases "map_shard rt cfg sg_names sgups tsfs ncs h")
  have own: "\<exists>u \<in> set sgups.
            p = update_of h u (desired_ncs rt tsfs ncs u) (tsf_ncs tsfs ncs u)
          \<and> fingerprint rt (sgup_name u) (desired_ncs rt tsfs ncs u)
              \<noteq> fingerprint rt (desired_service_gateway_user_plane h)
                   (desired_network_connection h)" if "p \<in> set (writes evs)"
  proof -
    from that m have "Update_shard p \<in> set (fst (map_shard rt cfg sg_names sgups tsfs ncs h))"
      by (simp add: mem_writes)
    from map_shard_Update [OF this] show ?thesis
      by (auto dest: get_sgup_Some)
  qed
  from Cons.prems m have "p \<in> set (writes evs)
      \<or> p \<in> set (writes (fst (map_shards_loop rt cfg sg_names sgups tsfs ncs hs)))"
    by (cases e) (auto split: prod.splits)
  with own Cons.IH show ?case by auto
qed

text \<open>
  Claim C10, amended. On a store with at least one SGUP, where the sweep computes
  fingerprints: every update the sweep issues is the update of a shard to an SGUP such that
  the fingerprint of the SGUP's name with the connection names computed for it, in the
  iteration order of their set, differs from the fingerprint of the shard's stored desired
  state, so no update is issued when the two coincide. And when a second snapshot differs
  only in the supported service groups of the SGUPs and in TSFs and network connections
  that leave the iterated sequence of connection names computed for every SGUP as it was
  (the winners of the TSF slots may change), the sweep logs the same warnings, issues
  updates for the same shards with the same SGUP and connection names (the two fields
  outside the fingerprint, \<^verbatim>\<open>service_groups_supported\<close> and \<^verbatim>\<open>current_tsf_network_connection\<close>,
  apart) and ends the same way: such a change alone never triggers a write.
\<close>

theorem map_shards_write_decision:
  assumes planes: "service_gateway_user_planes S \<noteq> []"
  shows "(\<forall>p \<in> set (writes (fst (map_shards rt cfg S))).
            \<exists>h \<in> set (shards S). \<exists>u \<in> set (service_gateway_user_planes S).
               p = update_of h u
                     (desired_ncs rt (traffic_steering_functions S) (network_connections S) u)
                     (tsf_ncs (traffic_steering_functions S) (network_connections S) u)
             \<and> fingerprint rt (sgup_name u)
                   (desired_ncs rt (traffic_steering_functions S) (network_connections S) u)
                 \<noteq> fingerprint rt (desired_service_gateway_user_plane h)
                      (desired_network_connection h))
       \<and> ((\<forall>u \<in> set (service_gateway_user_planes S).
              desired_ncs rt tsfs' ncs' u
                = desired_ncs rt (traffic_steering_functions S) (network_connections S) u) \<longrightarrow>
            map decision (fst (map_shards rt cfg
              (S \<lparr> service_gateway_user_planes :=
                     map (\<lambda>u. u \<lparr> supported_service_group := g u \<rparr>)
                       (service_gateway_user_planes S),
                   traffic_steering_functions := tsfs',
                   network_connections := ncs' \<rparr>)))
              = map decision (fst (map_shards rt cfg S))
          \<and> snd (map_shards rt cfg
              (S \<lparr> service_gateway_user_planes :=
                     map (\<lambda>u. u \<lparr> supported_service_group := g u \<rparr>)
                       (service_gateway_user_planes S),
                   traffic_steering_functions := tsfs',
                   network_connections := ncs' \<rparr>))
              = snd (map_shards rt cfg S))"
proof (intro conjI ballI impI)
  fix p
  assume "p \<in> set (writes (fst (map_shards rt cfg S)))"
  with planes show "\<exists>h \<in> set (shards S). \<exists>u \<in> set (service_gateway_user_planes S).
               p = update_of h u
                     (desired_ncs rt (traffic_steering_functions S) (network_connections S) u)
                     (tsf_ncs (traffic_steering_functions S) (network_connections S) u)
             \<and> fingerprint rt (sgup_name u)
                   (desired_ncs rt (traffic_steering_functions S) (network_connections S) u)
                 \<noteq> fingerprint rt (desired_service_gateway_user_plane h)
                      (desired_network_connection h)"
    using map_shards_loop_Update [of p rt cfg "map sg_name (service_gateways S)"
      "service_gateway_user_planes S" "traffic_steering_functions S" "network_connections S"
      "shards S"]
    by (simp add: map_shards_def)
next
  assume same: "\<forall>u \<in> set (service_gateway_user_planes S).
              desired_ncs rt tsfs' ncs' u
                = desired_ncs rt (traffic_steering_functions S) (network_connections S) u"
  let ?S' = "S \<lparr> service_gateway_user_planes :=
                     map (\<lambda>u. u \<lparr> supported_service_group := g u \<rparr>)
                       (service_gateway_user_planes S),
                   traffic_steering_functions := tsfs',
                   network_connections := ncs' \<rparr>"
  note loop = map_shards_loop_decision [OF same, of cfg "map sg_name (service_gateways S)" g
      "shards S"]
  from planes loop show "map decision (fst (map_shards rt cfg ?S'))
              = map decision (fst (map_shards rt cfg S))"
    by (simp add: map_shards_def)
  from planes loop show "snd (map_shards rt cfg ?S') = snd (map_shards rt cfg S)"
    by (simp add: map_shards_def)
qed

text \<open>
  A shard bound to \<open>A\<close> with the connections \<open>nc1, nc2\<close> that the sweep computes. Moving
  \<open>nc2\<close> from the first TSF's endpoint to the second's swaps the winners of both slots;
  the names are still added to the set as \<open>nc1\<close> first and \<open>nc2\<close> second, so the set and
  its iteration are as before. With new service groups on \<open>A\<close> as well, the sweep still
  writes nothing.
\<close>

theorem map_shards_write_decision_witness:
  "service_gateway_user_planes slot_fleet \<noteq> []
   \<and> service_gateway_user_planes slot_fleet = [sgup_of ''A'' ''sg'' 10 100 ''ep-A'']
   \<and> desired_ncs example_runtime (traffic_steering_functions slot_fleet)
         [nc_both, nc_single ''ep-T2''] (sgup_of ''A'' ''sg'' 10 100 ''ep-A'')
       = desired_ncs example_runtime (traffic_steering_functions slot_fleet)
           (network_connections slot_fleet) (sgup_of ''A'' ''sg'' 10 100 ''ep-A'')
   \<and> tsf_ncs (traffic_steering_functions slot_fleet) (network_connections slot_fleet)
         (sgup_of ''A'' ''sg'' 10 100 ''ep-A'') = [(''t1'', ''nc2''), (''t2'', ''nc1'')]
   \<and> tsf_ncs (traffic_steering_functions slot_fleet) [nc_both, nc_single ''ep-T2'']
         (sgup_of ''A'' ''sg'' 10 100 ''ep-A'') = [(''t1'', ''nc1''), (''t2'', ''nc2'')]
   \<and> map_shards example_runtime File_absent slot_fleet = ([], Finished)
   \<and> map_shards example_runtime File_absent
         (slot_fleet \<lparr> service_gateway_user_planes :=
                          map (\<lambda>u. u \<lparr> supported_service_group := [''premium''] \<rparr>)
                            (service_gateway_user_planes slot_fleet),
                        traffic_steering_functions := traffic_steering_functions slot_fleet,
                        network_connections := [nc_both, nc_single ''ep-T2''] \<rparr>)
       = ([], Finished)"
proof -
  let ?A = "sgup_of ''A'' ''sg'' 10 100 ''ep-A''"
  let ?T = "traffic_steering_functions slot_fleet"
  let ?N' = "[nc_both, nc_single ''ep-T2'']"
  let ?S' = "slot_fleet \<lparr> service_gateway_user_planes :=
                          map (\<lambda>u. u \<lparr> supported_service_group := [''premium''] \<rparr>)
                            (service_gateway_user_planes slot_fleet),
                        traffic_steering_functions := ?T,
                        network_connections := ?N' \<rparr>"
  have planes: "service_gateway_user_planes slot_fleet \<noteq> []"
    and only: "service_gateway_user_planes slot_fleet = [?A]"
    by (simp_all add: slot_fleet_def)
  have d: "desired_ncs example_runtime ?T ?N' ?A
             = desired_ncs example_runtime ?T (network_connections slot_fleet) ?A"
    by (simp add: slot_fleet_def nc_both_def nc_single_def mapper_defs instance_defs)
  have t1: "tsf_ncs ?T (network_connections slot_fleet) ?A = [(''t1'', ''nc2''), (''t2'', ''nc1'')]"
    by (simp add: slot_fleet_def nc_both_def nc_single_def mapper_defs instance_defs)
  have t2: "tsf_ncs ?T ?N' ?A = [(''t1'', ''nc1''), (''t2'', ''nc2'')]"
    by (simp add: slot_fleet_def nc_both_def nc_single_def mapper_defs instance_defs)
  have s: "map_shards example_runtime File_absent slot_fleet = ([], Finished)"
    by (simp add: slot_fleet_def nc_both_def nc_single_def mapper_defs instance_defs)
  from d only have same: "\<forall>u \<in> set (service_gateway_user_planes slot_fleet).
      desired_ncs example_runtime ?T ?N' u
        = desired_ncs example_runtime ?T (network_connections slot_fleet) u"
    by simp
  from map_shards_write_decision [OF planes, of example_runtime File_absent ?T ?N'
      "\<lambda>u. [''premium'']"] same s
  have "map decision (fst (map_shards example_runtime File_absent ?S')) = []"
    and "snd (map_shards example_runtime File_absent ?S') = Finished"
    by simp_all
  then have "map_shards example_runtime File_absent ?S' = ([], Finished)"
    by (cases "map_shards example_runtime File_absent ?S'") simp
  with planes only d t1 t2 s show ?thesis by simp
qed

text \<open>
  Where the claim as stated fails, in two ways. First, the fingerprint joins the names in
  the iteration order of the set, not the set: listing the two connections of the store
  above in the other order leaves the set of computed names, changes the winner of the
  first TSF's slot from \<open>nc2\<close> to \<open>nc1\<close>, and with a set that iterates in insertion order
  the joined names become \<open>nc2,nc1\<close>; the sweep that wrote nothing now issues an update.
  Second, with no SGUP in the store the sweep issues its reset update without computing a
  fingerprint at all.
\<close>

theorem map_shards_write_without_fingerprint_change:
  "map_shards example_runtime File_absent slot_fleet = ([], Finished)
   \<and> desired_ncs example_runtime (traffic_steering_functions slot_fleet)
         (network_connections slot_fleet) (sgup_of ''A'' ''sg'' 10 100 ''ep-A'')
       = [''nc1'', ''nc2'']
   \<and> desired_ncs example_runtime (traffic_steering_functions slot_fleet)
         [nc_single ''ep-T1'', nc_both] (sgup_of ''A'' ''sg'' 10 100 ''ep-A'')
       = [''nc2'', ''nc1'']
   \<and> tsf_ncs (traffic_steering_functions slot_fleet) (network_connections slot_fleet)
         (sgup_of ''A'' ''sg'' 10 100 ''ep-A'') = [(''t1'', ''nc2''), (''t2'', ''nc1'')]
   \<and> tsf_ncs (traffic_steering_functions slot_fleet) [nc_single ''ep-T1'', nc_both]
         (sgup_of ''A'' ''sg'' 10 100 ''ep-A'') = [(''t1'', ''nc1''), (''t2'', ''nc1'')]
   \<and> map_shards example_runtime File_absent
         (slot_fleet \<lparr> network_connections := [nc_single ''ep-T1'', nc_both] \<rparr>)
       = ([Update_shard
             \<lparr> u_name = ''s'',
               u_desired_service_gateway_user_plane = Some ''A'',
               u_desired_network_connection = Some [''nc2'', ''nc1''],
               u_current_tsf_network_connection = Some [(''t1'', ''nc1''), (''t2'', ''nc1'')],
               u_service_groups_supported = Some [],
               u_prefix = [''10.0.0.0/30''],
               u_list_merge_strategy = ''replace'' \<rparr>],
          Finished)
   \<and> map_shards example_runtime File_absent reset_fleet
       = ([Warning No_user_planes,
           Update_shard
             \<lparr> u_name = ''s1'',
               u_desired_service_gateway_user_plane = None,
               u_desired_network_connection = None,
               u_current_tsf_network_connection = None,
               u_service_groups_supported = None,
               u_prefix = [''10.0.0.0/30''],
               u_list_merge_strategy = ''replace'' \<rparr>],
          Returned)"
  by (simp add: slot_fleet_def reset_fleet_def nc_both_def nc_single_def mapper_defs
        instance_defs)

section \<open>Properties of the materializer\<close>

lemmas ipv4_defs =
  ipv4_def ipv4_network_hosts_def ipv4_hosts_def ipv4_address_def octet_def decimal_def
  digit_of_def

lemmas materializer_defs =
  create_default_items_def create_item_def prefix_hosts_def exclude_of_def requested_sgup_def
  created_def

subsection \<open>Capacity of a materialized shard\<close>

lemma created_simps [simp]:
  "created [] = []"
  "created (C3_warning w # evs) = created evs"
  "created (Create_shard e p # evs) = (e, p) # created evs"
  "created (evs @ evs') = created evs @ created evs'"
  by (simp_all add: created_def)

lemma created_warnings [simp]: "created (map (\<lambda>p. C3_warning (f p)) ps) = []"
  by (induction ps) simp_all

lemma count_hosts_fst:
  "fst (count_hosts ip ex ps)
     = sum_list (map (\<lambda>p. case prefix_hosts ip ex p of None \<Rightarrow> 0 | Some k \<Rightarrow> int k) ps)"
  by (induction ps) (auto split: prod.splits option.splits)

lemma count_hosts_snd:
  "snd (count_hosts ip ex ps) = filter (\<lambda>p. prefix_hosts ip ex p = None) ps"
  by (induction ps) (auto split: prod.splits option.splits)

lemma prefix_hosts_bad_exclude:
  "those (map (ip_address ip) ex) = None \<Longrightarrow> prefix_hosts ip ex p = None"
  by (simp add: prefix_hosts_def)

lemma prefix_hosts_good_exclude:
  "those (map (ip_address ip) ex) = Some X \<Longrightarrow>
   prefix_hosts ip ex p = map_option (\<lambda>hs. card (set hs - set X)) (ip_network_hosts ip p)"
proof -
  have "length (remdups (filter (\<lambda>a. a \<notin> set X) hs)) = card (set hs - set X)" for hs :: "'a list"
  proof -
    have "set (filter (\<lambda>a. a \<notin> set X) hs) = set hs - set X" by auto
    then show ?thesis by (metis length_remdups_card_conv)
  qed
  then show "those (map (ip_address ip) ex) = Some X \<Longrightarrow> ?thesis"
    by (simp add: prefix_hosts_def split: option.splits)
qed

lemma count_hosts_bad_exclude:
  "those (map (ip_address ip) ex) = None \<Longrightarrow> count_hosts ip ex ps = (0, ps)"
  by (induction ps) (simp_all add: prefix_hosts_bad_exclude)

lemma count_hosts_good_exclude:
  assumes "those (map (ip_address ip) ex) = Some X"
  shows "fst (count_hosts ip ex ps)
           = sum_list (map (\<lambda>hs. int (card (set hs - set X)))
               (List.map_filter (ip_network_hosts ip) ps))"
    and "snd (count_hosts ip ex ps) = filter (\<lambda>p. ip_network_hosts ip p = None) ps"
proof -
  show "fst (count_hosts ip ex ps)
           = sum_list (map (\<lambda>hs. int (card (set hs - set X)))
               (List.map_filter (ip_network_hosts ip) ps))"
  proof -
    have "sum_list (map (\<lambda>p. case prefix_hosts ip ex p of None \<Rightarrow> 0 | Some k \<Rightarrow> int k) ps)
            = sum_list (map (\<lambda>hs. int (card (set hs - set X)))
                (List.map_filter (ip_network_hosts ip) ps))"
      by (induction ps)
         (simp_all add: prefix_hosts_good_exclude [OF assms] List.map_filter_simps
            split: option.splits)
    then show ?thesis by (simp add: count_hosts_fst)
  qed
  show "snd (count_hosts ip ex ps) = filter (\<lambda>p. ip_network_hosts ip p = None) ps"
    by (simp add: count_hosts_snd prefix_hosts_good_exclude [OF assms])
qed

text \<open>What one loop body creates, and which warnings come with it.\<close>

lemma create_item_created:
  assumes "(e', p) \<in> set (created (fst (create_item ip vmac sgups existing e fifo)))"
  shows "e' = e \<and> entry_prefixes e = Some (c_prefix p)
       \<and> c_max_session_count p = fst (count_hosts ip (exclude_of e) (c_prefix p))
       \<and> (\<forall>pf \<in> set (snd (count_hosts ip (exclude_of e) (c_prefix p))).
             C3_warning (Invalid_prefix pf e)
               \<in> set (fst (create_item ip vmac sgups existing e fifo)))"
  using assms
  by (auto simp: create_item_def Let_def
           split: option.splits if_splits prod.splits list.splits)

lemma create_items_loop_created:
  assumes "(e, p) \<in> set (created (create_items_loop ip vmac sgups existing fifo es))"
  shows "entry_prefixes e = Some (c_prefix p)
       \<and> c_max_session_count p = fst (count_hosts ip (exclude_of e) (c_prefix p))
       \<and> (\<forall>pf \<in> set (snd (count_hosts ip (exclude_of e) (c_prefix p))).
             C3_warning (Invalid_prefix pf e)
               \<in> set (create_items_loop ip vmac sgups existing fifo es))"
  using assms
proof (induction es arbitrary: fifo)
  case Nil
  then show ?case by simp
next
  case (Cons a es)
  obtain evs fifo' where c: "create_item ip vmac sgups existing a fifo = (evs, fifo')"
    by (cases "create_item ip vmac sgups existing a fifo")
  from Cons.prems c consider "(e, p) \<in> set (created evs)"
    | "(e, p) \<in> set (created (create_items_loop ip vmac sgups existing fifo' es))"
    by auto
  then show ?case
  proof cases
    case 1
    with create_item_created [of e p ip vmac sgups existing a fifo] c show ?thesis
      by auto
  next
    case 2
    from Cons.IH [OF 2] c show ?thesis by auto
  qed
qed

lemma create_default_items_created:
  assumes "create_default_items ip vmac cfg S = Inr evs" and "(e, p) \<in> set (created evs)"
  shows "entry_prefixes e = Some (c_prefix p)
       \<and> c_max_session_count p = fst (count_hosts ip (exclude_of e) (c_prefix p))
       \<and> (\<forall>pf \<in> set (snd (count_hosts ip (exclude_of e) (c_prefix p))).
             C3_warning (Invalid_prefix pf e) \<in> set evs)"
proof (cases cfg)
  case (Document es)
  with assms show ?thesis
    using create_items_loop_created [of e p ip vmac
        "map sgup_name (service_gateway_user_planes S)" "map shard_name (shards S)" "[]" es]
    by (auto simp: create_default_items_def split: if_splits)
qed (use assms in \<open>auto simp: create_default_items_def split: if_splits\<close>)

text \<open>
  Claim C8. For every shard that \<^verbatim>\<open>create_default_items\<close> creates from a policy entry
  whose exclusions all parse (to the addresses \<open>X\<close>), the shard's prefix list is the
  entry's, and its \<^verbatim>\<open>max_session_count\<close> is the sum, over the prefixes that parse as a
  network, of the number of hosts of the network that are not in \<open>X\<close>.
\<close>

theorem create_default_items_capacity:
  assumes "create_default_items ip vmac cfg S = Inr evs"
    and "(e, p) \<in> set (created evs)"
    and "those (map (ip_address ip) (exclude_of e)) = Some X"
  shows "entry_prefixes e = Some (c_prefix p)
       \<and> c_max_session_count p
           = sum_list (map (\<lambda>hs. int (card (set hs - set X)))
               (List.map_filter (ip_network_hosts ip) (c_prefix p)))"
  using create_default_items_created [OF assms(1,2)] count_hosts_good_exclude(1) [OF assms(3)]
  by simp

text \<open>
  The spec's ``capacity computation'' scenario: \<^verbatim>\<open>10.0.0.0/30\<close> has the hosts \<^verbatim>\<open>.1\<close> and
  \<^verbatim>\<open>.2\<close>; with \<^verbatim>\<open>10.0.0.1\<close> excluded the shard is created with capacity 1.
\<close>

theorem create_default_items_capacity_witness:
  "create_default_items ipv4 ''00:00:01:00:00:00''
     (Document [entry_of ''s'' [''10.0.0.0/30''] [''10.0.0.1'']]) one_sgup
     = Inr [Create_shard (entry_of ''s'' [''10.0.0.0/30''] [''10.0.0.1''])
              \<lparr> c_name = ''s'', c_virtual_mac = ''00:00:01:00:00:00'',
                c_allocated_session_count = 0, c_max_session_count = 1,
                c_prefix = [''10.0.0.0/30''],
                c_desired_service_gateway_user_plane = Some ''A'' \<rparr>]
   \<and> those (map (ip_address ipv4) (exclude_of (entry_of ''s'' [''10.0.0.0/30''] [''10.0.0.1''])))
       = Some [167772161]
   \<and> List.map_filter (ip_network_hosts ipv4) [''10.0.0.0/30''] = [[167772161, 167772162]]
   \<and> sum_list (map (\<lambda>hs. int (card (set hs - set [167772161::nat])))
         (List.map_filter (ip_network_hosts ipv4) [''10.0.0.0/30''])) = 1"
proof -
  let ?e = "entry_of ''s'' [''10.0.0.0/30''] [''10.0.0.1'']"
  let ?p = "\<lparr> c_name = ''s'', c_virtual_mac = ''00:00:01:00:00:00'',
              c_allocated_session_count = 0, c_max_session_count = 1,
              c_prefix = [''10.0.0.0/30''],
              c_desired_service_gateway_user_plane = Some ''A'' \<rparr>"
  have a: "ipv4_address ''10.0.0.1'' = Some 167772161"
    by (simp add: ipv4_defs)
  have n: "ipv4_network_hosts ''10.0.0.0/30'' = Some [167772161, 167772162]"
    by (simp add: ipv4_defs)
  have h1: "create_default_items ipv4 ''00:00:01:00:00:00'' (Document [?e]) one_sgup
              = Inr [Create_shard ?e ?p]"
    by (simp add: materializer_defs entry_of_def one_sgup_def sgup_of_def ipv4_def a n)
  have h2: "(?e, ?p) \<in> set (created [Create_shard ?e ?p])"
    by simp
  have h3: "those (map (ip_address ipv4) (exclude_of ?e)) = Some [167772161]"
    by (simp add: exclude_of_def entry_of_def ipv4_def a)
  have mf: "List.map_filter (ip_network_hosts ipv4) [''10.0.0.0/30''] = [[167772161, 167772162]]"
    by (simp add: List.map_filter_simps ipv4_def n)
  from create_default_items_capacity [OF h1 h2 h3]
  have "sum_list (map (\<lambda>hs. int (card (set hs - set [167772161::nat])))
         (List.map_filter (ip_network_hosts ipv4) [''10.0.0.0/30''])) = 1"
    by simp
  with h1 h3 mf show ?thesis by simp
qed

subsection \<open>Invalid prefixes and exclusions\<close>

text \<open>
  Claim C9, amended. For every shard that \<^verbatim>\<open>create_default_items\<close> creates from a policy
  entry: when the exclusions all parse, a prefix that does not parse as a network is
  warned about and skipped, and the prefixes that parse contribute their hosts outside
  the exclusions to \<^verbatim>\<open>max_session_count\<close>; when an exclusion does not parse, every prefix
  of the entry is warned about and skipped, and \<^verbatim>\<open>max_session_count\<close> is 0.
\<close>

theorem create_default_items_invalid_input:
  assumes "create_default_items ip vmac cfg S = Inr evs"
    and "(e, p) \<in> set (created evs)"
  shows "entry_prefixes e = Some (c_prefix p)
       \<and> (case those (map (ip_address ip) (exclude_of e)) of
            None \<Rightarrow>
              c_max_session_count p = 0
              \<and> (\<forall>pf \<in> set (c_prefix p). C3_warning (Invalid_prefix pf e) \<in> set evs)
          | Some X \<Rightarrow>
              c_max_session_count p
                = sum_list (map (\<lambda>hs. int (card (set hs - set X)))
                    (List.map_filter (ip_network_hosts ip) (c_prefix p)))
              \<and> (\<forall>pf \<in> set (c_prefix p).
                    ip_network_hosts ip pf = None \<longrightarrow>
                    C3_warning (Invalid_prefix pf e) \<in> set evs))"
proof (cases "those (map (ip_address ip) (exclude_of e))")
  case None
  with create_default_items_created [OF assms] count_hosts_bad_exclude [OF None]
  show ?thesis by simp
next
  case (Some X)
  with create_default_items_created [OF assms] count_hosts_good_exclude [OF Some]
  show ?thesis by simp
qed

text \<open>
  One malformed prefix beside a parseable one: a warning for \<^verbatim>\<open>10.0.0.0/33\<close>, and the
  capacity 1 that \<^verbatim>\<open>10.0.0.0/30\<close> without \<^verbatim>\<open>10.0.0.1\<close> gives.
\<close>

theorem create_default_items_invalid_input_witness:
  "create_default_items ipv4 ''00:00:01:00:00:00''
     (Document [entry_of ''s'' [''10.0.0.0/30'', ''10.0.0.0/33''] [''10.0.0.1'']]) one_sgup
     = Inr [C3_warning (Invalid_prefix ''10.0.0.0/33''
              (entry_of ''s'' [''10.0.0.0/30'', ''10.0.0.0/33''] [''10.0.0.1''])),
            Create_shard (entry_of ''s'' [''10.0.0.0/30'', ''10.0.0.0/33''] [''10.0.0.1''])
              \<lparr> c_name = ''s'', c_virtual_mac = ''00:00:01:00:00:00'',
                c_allocated_session_count = 0, c_max_session_count = 1,
                c_prefix = [''10.0.0.0/30'', ''10.0.0.0/33''],
                c_desired_service_gateway_user_plane = Some ''A'' \<rparr>]
   \<and> those (map (ip_address ipv4)
         (exclude_of (entry_of ''s'' [''10.0.0.0/30'', ''10.0.0.0/33''] [''10.0.0.1''])))
       = Some [167772161]
   \<and> List.map_filter (ip_network_hosts ipv4) [''10.0.0.0/30'', ''10.0.0.0/33'']
       = [[167772161, 167772162]]
   \<and> sum_list (map (\<lambda>hs. int (card (set hs - set [167772161::nat])))
         (List.map_filter (ip_network_hosts ipv4) [''10.0.0.0/30'', ''10.0.0.0/33''])) = 1"
proof -
  let ?e = "entry_of ''s'' [''10.0.0.0/30'', ''10.0.0.0/33''] [''10.0.0.1'']"
  let ?p = "\<lparr> c_name = ''s'', c_virtual_mac = ''00:00:01:00:00:00'',
              c_allocated_session_count = 0, c_max_session_count = 1,
              c_prefix = [''10.0.0.0/30'', ''10.0.0.0/33''],
              c_desired_service_gateway_user_plane = Some ''A'' \<rparr>"
  have a: "ipv4_address ''10.0.0.1'' = Some 167772161"
    by (simp add: ipv4_defs)
  have n: "ipv4_network_hosts ''10.0.0.0/30'' = Some [167772161, 167772162]"
    by (simp add: ipv4_defs)
  have b: "ipv4_network_hosts ''10.0.0.0/33'' = None"
    by (simp add: ipv4_defs)
  have h1: "create_default_items ipv4 ''00:00:01:00:00:00'' (Document [?e]) one_sgup
              = Inr [C3_warning (Invalid_prefix ''10.0.0.0/33'' ?e), Create_shard ?e ?p]"
    by (simp add: materializer_defs entry_of_def one_sgup_def sgup_of_def ipv4_def a n b)
  have h2: "(?e, ?p) \<in> set (created [C3_warning (Invalid_prefix ''10.0.0.0/33'' ?e),
                                     Create_shard ?e ?p])"
    by simp
  have h3: "those (map (ip_address ipv4) (exclude_of ?e)) = Some [167772161]"
    by (simp add: exclude_of_def entry_of_def ipv4_def a)
  have mf: "List.map_filter (ip_network_hosts ipv4) [''10.0.0.0/30'', ''10.0.0.0/33'']
              = [[167772161, 167772162]]"
    by (simp add: List.map_filter_simps ipv4_def n b)
  from create_default_items_invalid_input [OF h1 h2] h3
  have "sum_list (map (\<lambda>hs. int (card (set hs - set [167772161::nat])))
         (List.map_filter (ip_network_hosts ipv4) [''10.0.0.0/30'', ''10.0.0.0/33''])) = 1"
    by simp
  with h1 h3 mf show ?thesis by simp
qed

text \<open>
  Where the claim as stated fails: the exclusions are parsed inside the \<^verbatim>\<open>try\<close> block of
  each prefix. With the one exclusion \<^verbatim>\<open>bogus\<close>, both parseable prefixes are skipped with
  a warning and the shard is created with capacity 0, not 4.
\<close>

theorem create_default_items_bad_exclude:
  "ipv4_network_hosts ''10.0.0.0/30'' = Some [167772161, 167772162]
   \<and> ipv4_network_hosts ''10.0.1.0/30'' = Some [167772417, 167772418]
   \<and> ipv4_address ''bogus'' = None
   \<and> create_default_items ipv4 ''00:00:01:00:00:00''
       (Document [entry_of ''s'' [''10.0.0.0/30'', ''10.0.1.0/30''] [''bogus'']]) one_sgup
     = Inr [C3_warning (Invalid_prefix ''10.0.0.0/30''
              (entry_of ''s'' [''10.0.0.0/30'', ''10.0.1.0/30''] [''bogus''])),
            C3_warning (Invalid_prefix ''10.0.1.0/30''
              (entry_of ''s'' [''10.0.0.0/30'', ''10.0.1.0/30''] [''bogus''])),
            Create_shard (entry_of ''s'' [''10.0.0.0/30'', ''10.0.1.0/30''] [''bogus''])
              \<lparr> c_name = ''s'', c_virtual_mac = ''00:00:01:00:00:00'',
                c_allocated_session_count = 0, c_max_session_count = 0,
                c_prefix = [''10.0.0.0/30'', ''10.0.1.0/30''],
                c_desired_service_gateway_user_plane = Some ''A'' \<rparr>]"
proof -
  have n1: "ipv4_network_hosts ''10.0.0.0/30'' = Some [167772161, 167772162]"
    by (simp add: ipv4_defs)
  have n2: "ipv4_network_hosts ''10.0.1.0/30'' = Some [167772417, 167772418]"
    by (simp add: ipv4_defs)
  have b: "ipv4_address ''bogus'' = None"
    by (simp add: ipv4_defs)
  show ?thesis
    by (simp add: n1 n2 b materializer_defs entry_of_def one_sgup_def sgup_of_def ipv4_def)
qed

subsection \<open>Dynamic binding of new shards\<close>

lemma dynamic_bindings_simps [simp]:
  "dynamic_bindings [] = []"
  "dynamic_bindings (C3_warning w # evs) = dynamic_bindings evs"
  "dynamic_bindings (Create_shard e p # evs) =
     (if requested_sgup e = None then c_desired_service_gateway_user_plane p # dynamic_bindings evs
      else dynamic_bindings evs)"
  "dynamic_bindings (evs @ evs') = dynamic_bindings evs @ dynamic_bindings evs'"
  by (simp_all add: dynamic_bindings_def)

lemma dynamic_bindings_warnings [simp]:
  "dynamic_bindings (map (\<lambda>p. C3_warning (f p)) ps) = []"
  by (simp add: dynamic_bindings_def)

text \<open>
  The list the dynamic binding pops from, after \<open>j\<close> pops: the rest of the current round,
  or empty at the end of a round.
\<close>

lemma create_item_round_robin:
  assumes ne: "names \<noteq> []"
    and inv: "fifo = drop (j mod length names) names \<or> (fifo = [] \<and> j mod length names = 0)"
    and c: "create_item ip vmac names existing e fifo = (evs, fifo')"
  shows "(dynamic_bindings evs = []
          \<and> (fifo' = drop (j mod length names) names \<or> (fifo' = [] \<and> j mod length names = 0)))
       \<or> (dynamic_bindings evs = [Some (names ! (j mod length names))]
          \<and> (fifo' = drop (Suc j mod length names) names
              \<or> (fifo' = [] \<and> Suc j mod length names = 0)))"
proof -
  let ?n = "length names"
  from ne have lt: "j mod ?n < ?n" by simp
  then have "drop (j mod ?n) names \<noteq> []" by simp
  with inv have refill: "(if fifo = [] then names else fifo) = drop (j mod ?n) names"
    by auto
  have pop: "drop (j mod ?n) names = names ! (j mod ?n) # drop (Suc (j mod ?n)) names"
    using lt by (simp add: Cons_nth_drop_Suc)
  have next_inv: "drop (Suc (j mod ?n)) names = drop (Suc j mod ?n) names
                  \<or> (drop (Suc (j mod ?n)) names = [] \<and> Suc j mod ?n = 0)"
  proof (cases "Suc (j mod ?n) < ?n")
    case True
    then have "Suc j mod ?n = Suc (j mod ?n)" by (simp add: mod_Suc)
    then show ?thesis by simp
  next
    case False
    with lt have "Suc (j mod ?n) = ?n" by simp
    then have "Suc j mod ?n = 0" "drop (Suc (j mod ?n)) names = []"
      by (simp_all add: mod_Suc)
    then show ?thesis by simp
  qed
  from c inv next_inv show ?thesis
    unfolding create_item_def Let_def refill pop
    by (auto split: option.splits if_splits prod.splits)
qed

lemma create_items_loop_round_robin:
  assumes ne: "names \<noteq> []"
  shows "fifo = drop (j mod length names) names \<or> (fifo = [] \<and> j mod length names = 0) \<Longrightarrow>
         dynamic_bindings (create_items_loop ip vmac names existing fifo es)
           = map (\<lambda>k. Some (names ! ((j + k) mod length names)))
               [0 ..< length (dynamic_bindings (create_items_loop ip vmac names existing fifo es))]"
proof (induction es arbitrary: fifo j)
  case Nil
  show ?case by simp
next
  case (Cons e es)
  obtain evs fifo' where c: "create_item ip vmac names existing e fifo = (evs, fifo')"
    by (cases "create_item ip vmac names existing e fifo")
  let ?rest = "create_items_loop ip vmac names existing fifo' es"
  from create_item_round_robin [OF ne Cons.prems c]
  consider
    (skip) "dynamic_bindings evs = []"
      "fifo' = drop (j mod length names) names \<or> (fifo' = [] \<and> j mod length names = 0)"
  | (pop) "dynamic_bindings evs = [Some (names ! (j mod length names))]"
      "fifo' = drop (Suc j mod length names) names \<or> (fifo' = [] \<and> Suc j mod length names = 0)"
    by blast
  then show ?case
  proof cases
    case skip
    from Cons.IH [OF skip(2)] skip(1) c show ?thesis by simp
  next
    case pop
    from Cons.IH [OF pop(2)] have
      "dynamic_bindings ?rest
         = map (\<lambda>k. Some (names ! ((Suc j + k) mod length names)))
             [0 ..< length (dynamic_bindings ?rest)]" .
    then have "Some (names ! (j mod length names)) # dynamic_bindings ?rest
         = map (\<lambda>k. Some (names ! ((j + k) mod length names)))
             [0 ..< Suc (length (dynamic_bindings ?rest))]"
      by (simp only: map_upt_Suc) simp
    with pop(1) c show ?thesis by simp
  qed
qed

text \<open>
  Claim C2, amended. In one invocation of \<^verbatim>\<open>create_default_items\<close> on a store with at
  least one SGUP, the list of SGUP names is filled from \<^verbatim>\<open>list_service_gateway_user_planes\<close>,
  in store order, whenever it is empty at the materialization of a new shard, and each new
  shard without static pin pops its head. So the shards created without pin are bound
  round-robin: the \<open>k\<close>-th of them, counted from 0, to the SGUP at position \<open>k\<close> modulo the
  number of SGUPs, and none of them is created without a desired SGUP.
\<close>

theorem create_default_items_round_robin:
  assumes "service_gateway_user_planes S \<noteq> []"
    and "create_default_items ip vmac cfg S = Inr evs"
  shows "dynamic_bindings evs
           = map (\<lambda>k. Some (map sgup_name (service_gateway_user_planes S)
                               ! (k mod length (service_gateway_user_planes S))))
               [0 ..< length (dynamic_bindings evs)]"
proof (cases cfg)
  case File_absent
  with assms show ?thesis by (simp add: create_default_items_def)
next
  case Document_empty
  with assms show ?thesis by (simp add: create_default_items_def)
next
  case (Document es)
  let ?names = "map sgup_name (service_gateway_user_planes S)"
  from assms(1) have ne: "?names \<noteq> []" by simp
  have "[] = drop (0 mod length ?names) ?names \<or> ([] = ([] :: string list) \<and> 0 mod length ?names = 0)"
    by simp
  from create_items_loop_round_robin [OF ne this, of ip vmac "map shard_name (shards S)" es]
    Document assms
  show ?thesis by (simp add: create_default_items_def)
qed

text \<open>
  Two SGUPs \<open>A, B\<close>, one stored shard \<open>s\<close>; the policy lists three new shards without pin,
  a new shard pinned to \<open>B\<close> and the stored \<open>s\<close>. The three are bound to \<open>A, B, A\<close>.
\<close>

theorem create_default_items_round_robin_witness:
  "service_gateway_user_planes pinned_fleet \<noteq> []
   \<and> map sgup_name (service_gateway_user_planes pinned_fleet) = [''A'', ''B'']
   \<and> create_default_items ipv4 ''00:00:01:00:00:00''
       (Document [entry_of ''s1'' [] [], pinned ''p'' ''B'', entry_of ''s2'' [] [],
                  entry_of ''s'' [] [], entry_of ''s3'' [] []]) pinned_fleet
     = Inr [Create_shard (entry_of ''s1'' [] []) (params_of ''s1'' (Some ''A'')),
            Create_shard (pinned ''p'' ''B'') (params_of ''p'' (Some ''B'')),
            Create_shard (entry_of ''s2'' [] []) (params_of ''s2'' (Some ''B'')),
            Create_shard (entry_of ''s3'' [] []) (params_of ''s3'' (Some ''A''))]
   \<and> dynamic_bindings
        [Create_shard (entry_of ''s1'' [] []) (params_of ''s1'' (Some ''A'')),
         Create_shard (pinned ''p'' ''B'') (params_of ''p'' (Some ''B'')),
         Create_shard (entry_of ''s2'' [] []) (params_of ''s2'' (Some ''B'')),
         Create_shard (entry_of ''s3'' [] []) (params_of ''s3'' (Some ''A''))]
     = map (\<lambda>k. Some ([''A'', ''B''] ! (k mod 2))) [0 ..< 3]"
proof -
  let ?evs = "[Create_shard (entry_of ''s1'' [] []) (params_of ''s1'' (Some ''A'')),
         Create_shard (pinned ''p'' ''B'') (params_of ''p'' (Some ''B'')),
         Create_shard (entry_of ''s2'' [] []) (params_of ''s2'' (Some ''B'')),
         Create_shard (entry_of ''s3'' [] []) (params_of ''s3'' (Some ''A''))]"
  have h1: "service_gateway_user_planes pinned_fleet \<noteq> []"
    and nm: "map sgup_name (service_gateway_user_planes pinned_fleet) = [''A'', ''B'']"
    by (simp_all add: pinned_fleet_def sgup_of_def)
  have h2: "create_default_items ipv4 ''00:00:01:00:00:00''
       (Document [entry_of ''s1'' [] [], pinned ''p'' ''B'', entry_of ''s2'' [] [],
                  entry_of ''s'' [] [], entry_of ''s3'' [] []]) pinned_fleet = Inr ?evs"
    by (simp add: materializer_defs entry_of_def pinned_def params_of_def pinned_fleet_def
          sgup_of_def shard_of_def)
  have len: "length (dynamic_bindings ?evs) = 3"
    by (simp add: dynamic_bindings_def created_def requested_sgup_def entry_of_def pinned_def)
  have l2: "length (service_gateway_user_planes pinned_fleet) = 2"
    by (simp add: pinned_fleet_def)
  have "dynamic_bindings ?evs = map (\<lambda>k. Some ([''A'', ''B''] ! (k mod 2))) [0 ..< 3]"
    using create_default_items_round_robin [OF h1 h2] unfolding len nm l2 .
  with h1 nm h2 show ?thesis by simp
qed

text \<open>
  Where the claim as stated fails: one SGUP \<open>A\<close> and two new shards without pin. The
  first pop empties the list; for the second shard the list is filled again, and the
  shard is bound to \<open>A\<close>, not created without a desired SGUP.
\<close>

theorem create_default_items_refills:
  "create_default_items ipv4 ''00:00:01:00:00:00''
     (Document [entry_of ''s1'' [] [], entry_of ''s2'' [] []]) one_sgup
     = Inr [Create_shard (entry_of ''s1'' [] []) (params_of ''s1'' (Some ''A'')),
            Create_shard (entry_of ''s2'' [] []) (params_of ''s2'' (Some ''A''))]
   \<and> map sgup_name (service_gateway_user_planes one_sgup) = [''A'']
   \<and> dynamic_bindings
        [Create_shard (entry_of ''s1'' [] []) (params_of ''s1'' (Some ''A'')),
         Create_shard (entry_of ''s2'' [] []) (params_of ''s2'' (Some ''A''))]
     = [Some ''A'', Some ''A'']"
  by (simp add: materializer_defs dynamic_bindings_def entry_of_def params_of_def one_sgup_def
        sgup_of_def)

end
